theory Spec2Isabelle
  imports Complex_Main "HOL-Library.AList"
begin

section \<open>Roblox Friends Tracker: a model of \<^verbatim>\<open>run.py\<close>\<close>

text \<open>
  The script is a single sequential pass: read a cookie, authenticate, page through the
  friend list, enrich the entries in batches, diff against the stored snapshot, store the
  new snapshot. Everything it does beyond computing values (files, console, network,
  sleeping, the clock) is made explicit in a \<open>world\<close> record that every function takes
  and returns. An uncaught Python exception is the \<open>Inl\<close> branch of the result.
\<close>

subsection \<open>JSON values and Python dictionaries\<close>

text \<open>
  Values parsed by \<^verbatim>\<open>json.load\<close> / \<^verbatim>\<open>resp.json()\<close>. JSON numbers are restricted to
  integers (identifiers are integers; no float is ever inspected by the script). A Python
  \<^verbatim>\<open>dict\<close> keeps insertion order, so it is an association list with distinct keys.
\<close>

datatype jval =
    JNull
  | JBool bool
  | JInt int
  | JStr string
  | JArr "jval list"
  | JObj "(string \<times> jval) list"

type_synonym dict = "(string \<times> jval) list"

datatype error =
    KeyError
  | TypeError
  | AttributeError
  | ValueError
  | EOFError
  | KeyboardInterrupt

text \<open>Python truthiness, as used by \<^verbatim>\<open>if x\<close>, \<^verbatim>\<open>not x\<close>, \<^verbatim>\<open>a or b\<close>.\<close>

fun truthy :: "jval \<Rightarrow> bool" where
  "truthy JNull = False"
| "truthy (JBool b) = b"
| "truthy (JInt n) = (n \<noteq> 0)"
| "truthy (JStr s) = (s \<noteq> [])"
| "truthy (JArr xs) = (xs \<noteq> [])"
| "truthy (JObj kvs) = (kvs \<noteq> [])"

text \<open>\<^verbatim>\<open>d.get(k)\<close> and \<^verbatim>\<open>d.get(k, default)\<close> on a dict.\<close>

definition dict_get_or :: "dict \<Rightarrow> string \<Rightarrow> jval \<Rightarrow> jval" where
  "dict_get_or d k dflt = (case map_of d k of None \<Rightarrow> dflt | Some v \<Rightarrow> v)"

definition dict_get :: "dict \<Rightarrow> string \<Rightarrow> jval" where
  "dict_get d k = dict_get_or d k JNull"

text \<open>\<^verbatim>\<open>x.get(k, default)\<close> on any value: only a dict has the method.\<close>

fun py_get_or :: "jval \<Rightarrow> string \<Rightarrow> jval \<Rightarrow> error + jval" where
  "py_get_or (JObj d) k dflt = Inr (dict_get_or d k dflt)"
| "py_get_or _ k dflt = Inl AttributeError"

text \<open>
  \<^verbatim>\<open>x['id']\<close> on any value: a dict raises KeyError when the key is missing; a string or a
  list wants an integer index, and the other values are not subscriptable (TypeError).
\<close>

fun subscript :: "jval \<Rightarrow> string \<Rightarrow> error + jval" where
  "subscript (JObj d) k = (case map_of d k of None \<Rightarrow> Inl KeyError | Some v \<Rightarrow> Inr v)"
| "subscript _ k = Inl TypeError"

text \<open>
  Iterating a value (\<^verbatim>\<open>for u in x\<close>, \<^verbatim>\<open>list.extend(x)\<close>): a list yields its elements, a
  dict its keys, a string its characters; the rest is not iterable.
\<close>

fun py_iter :: "jval \<Rightarrow> error + jval list" where
  "py_iter (JArr xs) = Inr xs"
| "py_iter (JObj d) = Inr (map (\<lambda>kv. JStr (fst kv)) d)"
| "py_iter (JStr s) = Inr (map (\<lambda>c. JStr [c]) s)"
| "py_iter _ = Inl TypeError"

text \<open>
  A value used as a dictionary key must be hashable (lists and dicts are not), and Python
  compares keys with \<^verbatim>\<open>==\<close>, under which \<^verbatim>\<open>True == 1\<close> and \<^verbatim>\<open>False == 0\<close>.
\<close>

fun hashable :: "jval \<Rightarrow> bool" where
  "hashable (JArr _) = False"
| "hashable (JObj _) = False"
| "hashable _ = True"

fun as_key :: "jval \<Rightarrow> jval" where
  "as_key (JBool b) = JInt (if b then 1 else 0)"
| "as_key v = v"

text \<open>A dictionary keyed by identifier (\<^verbatim>\<open>{u['id']: u for u in ...}\<close>), in insertion order.\<close>

type_synonym 'a by_id = "(jval \<times> 'a) list"

text \<open>\<^verbatim>\<open>m[k] = v\<close>: replaces the value in place, or appends a new key.\<close>

definition setitem :: "'a by_id \<Rightarrow> jval \<Rightarrow> 'a \<Rightarrow> error + 'a by_id" where
  "setitem m k v = (if hashable k then Inr (AList.update (as_key k) v m) else Inl TypeError)"

text \<open>\<^verbatim>\<open>m.get(k)\<close> on such a dictionary; an unhashable key raises.\<close>

definition getitem :: "'a by_id \<Rightarrow> jval \<Rightarrow> error + 'a option" where
  "getitem m k = (if hashable k then Inr (map_of m (as_key k)) else Inl TypeError)"

text \<open>
  \<^verbatim>\<open>{u['id']: u for u in xs}\<close>, continuing from the dictionary \<open>m\<close>. An element
  whose \<^verbatim>\<open>u['id']\<close> evaluates is a dict, and is stored as such. A boolean identifier is
  stored as the integer it equals.
\<close>

fun index_by_id :: "jval list \<Rightarrow> dict by_id \<Rightarrow> error + dict by_id" where
  "index_by_id [] m = Inr m"
| "index_by_id (JObj d # us) m =
     (case subscript (JObj d) ''id'' of
        Inl e \<Rightarrow> Inl e
      | Inr k \<Rightarrow> (case setitem m k d of Inl e \<Rightarrow> Inl e | Inr m' \<Rightarrow> index_by_id us m'))"
| "index_by_id (u # us) m = Inl TypeError"

subsection \<open>The world\<close>

text \<open>
  A file is absent, present but unreadable (opening or parsing it raises), or holds a
  value. The three per-account files are keyed by the account name, which the script
  formats into the file name.
\<close>

datatype 'a fstate = Absent | Unreadable | Holds 'a

text \<open>
  Text built by an f-string: literal pieces, formatted values, numbers, and the text of a
  caught exception (\<^verbatim>\<open>{e}\<close>).
\<close>

datatype piece = S string | V jval | N int | Exc

type_synonym msg = "piece list"

text \<open>What reaches the console: \<^verbatim>\<open>log(message, color, level)\<close> and plain \<^verbatim>\<open>print\<close>.\<close>

datatype out = Log string msg | Print msg

text \<open>The tabular export: the header row and the data rows.\<close>

type_synonym csv = "string list \<times> jval list list"

datatype stdin_event = Line string | Interrupt | EndOfInput

text \<open>
  A call into \<^verbatim>\<open>requests\<close> either raises a \<^verbatim>\<open>RequestException\<close> (no connection, or a
  body that is not JSON when \<^verbatim>\<open>resp.json()\<close> is called) or gives a status and a body.
\<close>

datatype http_result = RequestException | Resp int jval

type_synonym headers = "(string \<times> string) list"

text \<open>
  The three calls the script makes: the identity check, one page of the friend list (user
  id, optional cursor parameter), and the bulk detail lookup (the batch of identifiers).
\<close>

datatype request =
    AuthGet headers
  | FriendsGet jval headers "jval option"
  | UsersPost headers "jval list"

text \<open>
  \<open>net\<close> is the response trace: the n-th request of the run is answered by \<open>net n\<close>, and
  \<open>sent\<close> lists the requests issued so far. \<open>cookie_write\<close>, \<open>json_write\<close>, \<open>csv_write\<close>
  and \<open>log_append\<close> say how the corresponding write ends: \<open>None\<close> when it succeeds,
  \<open>Some st\<close> when it raises an I/O error and leaves the file in state \<open>st\<close>.
\<close>

record world =
  cookie_file :: "string fstate"
  json_file :: "jval \<Rightarrow> jval fstate"
  csv_file :: "jval \<Rightarrow> csv fstate"
  log_file :: "jval \<Rightarrow> msg list fstate"
  stdin :: "stdin_event list"
  net :: "nat \<Rightarrow> http_result"
  sent :: "request list"
  console :: "out list"
  slept :: "nat list"
  now :: string
  cookie_write :: "string fstate option"
  json_write :: "jval fstate option"
  csv_write :: "csv fstate option"
  log_append :: "msg list fstate option"

definition BATCH_SIZE :: nat where "BATCH_SIZE = 50"
definition MAX_RETRIES :: nat where "MAX_RETRIES = 3"
definition RATE_LIMIT_DELAY :: nat where "RATE_LIMIT_DELAY = 5"

definition log_msg :: "string \<Rightarrow> msg \<Rightarrow> world \<Rightarrow> world" where
  "log_msg level message w = w\<lparr>console := console w @ [Log level message]\<rparr>"

definition print :: "msg \<Rightarrow> world \<Rightarrow> world" where
  "print message w = w\<lparr>console := console w @ [Print message]\<rparr>"

definition sleep :: "nat \<Rightarrow> world \<Rightarrow> world" where
  "sleep secs w = w\<lparr>slept := slept w @ [secs]\<rparr>"

text \<open>Issue a request: it is recorded, and the trace answers it.\<close>

definition send :: "request \<Rightarrow> world \<Rightarrow> http_result \<times> world" where
  "send r w = (net w (length (sent w)), w\<lparr>sent := sent w @ [r]\<rparr>)"

subsection \<open>\<^verbatim>\<open>save_database\<close>\<close>

text \<open>
  \<^verbatim>\<open>sum(1 for f in friends if not f.get('name'))\<close>.
\<close>

definition nameless :: "dict \<Rightarrow> bool" where
  "nameless f = (\<not> truthy (dict_get f ''name''))"

definition count_nameless :: "dict list \<Rightarrow> nat" where
  "count_nameless friends = length (filter nameless friends)"

text \<open>
  \<^verbatim>\<open>csv.DictWriter\<close> with the default \<^verbatim>\<open>extrasaction='raise'\<close> and \<^verbatim>\<open>restval=''\<close>: a row
  with a key outside the field names raises ValueError, a missing field is written empty.
\<close>

definition dict_to_list :: "string list \<Rightarrow> dict \<Rightarrow> error + jval list" where
  "dict_to_list fieldnames row =
     (if \<exists>k \<in> set (map fst row). k \<notin> set fieldnames then Inl ValueError
      else Inr (map (\<lambda>k. dict_get_or row k (JStr [])) fieldnames))"

text \<open>
  \<^verbatim>\<open>writer.writerows(friends)\<close>: the rows written so far stay in the file when a later row
  raises.
\<close>

fun writerows :: "string list \<Rightarrow> dict list \<Rightarrow> jval list list \<Rightarrow> (error + unit) \<times> jval list list" where
  "writerows fieldnames [] acc = (Inr (), acc)"
| "writerows fieldnames (r # rs) acc =
     (case dict_to_list fieldnames r of
        Inl e \<Rightarrow> (Inl e, acc)
      | Inr row \<Rightarrow> writerows fieldnames rs (acc @ [row]))"

text \<open>
  The guard compares a float quotient with the literal \<^verbatim>\<open>0.2\<close>. For any list shorter than
  \<open>2^50\<close> the float comparison agrees with the exact one, which is what is modelled.
\<close>

definition save_database :: "dict list \<Rightarrow> jval \<Rightarrow> world \<Rightarrow> (error + unit) \<times> world" where
  "save_database friends username w =
     (case friends of
        [] \<Rightarrow> (Inr (), w)
      | first # _ \<Rightarrow>
          let invalid_count = count_nameless friends in
          if length friends > 0 \<and> real invalid_count / real (length friends) > 0.2
          then (Inr (), log_msg ''PROTECTION''
                  [S ''Data corruption detected (names missing). Aborting save.''] w)
          else
            let w1 = (case json_write w of
                        None \<Rightarrow> w\<lparr>json_file := (json_file w)(username := Holds (JArr (map JObj friends)))\<rparr>
                      | Some st \<Rightarrow> log_msg ''ERROR'' [S ''Failed to save JSON.'']
                                    (w\<lparr>json_file := (json_file w)(username := st)\<rparr>))
            in (case csv_write w1 of
                  Some st \<Rightarrow> (Inr (), log_msg ''ERROR'' [S ''Failed to save CSV.'']
                                        (w1\<lparr>csv_file := (csv_file w1)(username := st)\<rparr>))
                | None \<Rightarrow>
                    let fieldnames = map fst first in
                    (case writerows fieldnames friends [] of
                       (Inl e, rows) \<Rightarrow>
                         (Inl e, w1\<lparr>csv_file := (csv_file w1)(username := Holds (fieldnames, rows))\<rparr>)
                     | (Inr _, rows) \<Rightarrow>
                         (Inr (), log_msg ''INFO'' [S ''Database updated.'']
                            (w1\<lparr>csv_file := (csv_file w1)(username := Holds (fieldnames, rows))\<rparr>)))))"

subsection \<open>\<^verbatim>\<open>analyze_changes\<close>\<close>

definition newline :: string where
  "newline = [CHR 0x0A]"

text \<open>The cross mark U+274C and the check mark U+2705 of the report, in UTF-8.\<close>

definition cross_mark :: string where
  "cross_mark = [CHR 0xE2, CHR 0x9D, CHR 0x8C]"

definition check_mark :: string where
  "check_mark = [CHR 0xE2, CHR 0x9C, CHR 0x85]"

definition lost_print :: "jval \<times> dict \<Rightarrow> out" where
  "lost_print = (\<lambda>(uid, u).
     Print [S ''   - '', V (dict_get_or u ''name'' (JStr ''Unknown'')),
            S '' (@'', V (dict_get_or u ''displayName'' (JStr ''-'')), S '')''])"

definition lost_log :: "string \<Rightarrow> jval \<times> dict \<Rightarrow> msg" where
  "lost_log timestamp = (\<lambda>(uid, u).
     [S ''['', S timestamp, S ''] '', S cross_mark, S '' UNFRIENDED: '',
      V (dict_get u ''name''), S '' (ID: '', V uid, S '')'', S newline])"

definition new_print :: "jval \<times> dict \<Rightarrow> out" where
  "new_print = (\<lambda>(uid, u).
     Print [S ''   + '', V (dict_get_or u ''name'' (JStr ''Unknown'')),
            S '' (@'', V (dict_get_or u ''displayName'' (JStr ''-'')), S '')''])"

definition new_log :: "string \<Rightarrow> jval \<times> dict \<Rightarrow> msg" where
  "new_log timestamp = (\<lambda>(uid, u).
     [S ''['', S timestamp, S ''] '', S check_mark, S '' NEW FRIEND: '',
      V (dict_get u ''name''), S '' (ID: '', V uid, S '')'', S newline])"

text \<open>\<^verbatim>\<open>open(log_file, "a")\<close> then \<^verbatim>\<open>f.writelines(logs)\<close>, when it succeeds.\<close>

fun appended :: "msg list fstate \<Rightarrow> msg list \<Rightarrow> msg list fstate" where
  "appended Absent logs = Holds logs"
| "appended Unreadable logs = Unreadable"
| "appended (Holds ls) logs = Holds (ls @ logs)"

text \<open>
  The two identifier sets are kept as the key lists of the two dictionaries, which are
  distinct. \<^verbatim>\<open>old_ids - cur_ids\<close> is the list of the entries of \<open>old_map\<close> whose key is not
  among \<open>cur_ids\<close>; each carries its record, which is what \<^verbatim>\<open>old_map[uid]\<close> looks up.
  Python iterates a set in an order of its own; the model takes the dictionary order.
\<close>

definition entries_not_in :: "dict by_id \<Rightarrow> jval list \<Rightarrow> dict by_id" where
  "entries_not_in m ids = filter (\<lambda>(uid, u). uid \<notin> set ids) m"

definition analyze_changes :: "dict list \<Rightarrow> jval \<Rightarrow> world \<Rightarrow> (error + unit) \<times> world" where
  "analyze_changes current_list username w =
     (let empty_names = count_nameless current_list in
      if length current_list > 0 \<and> real empty_names / real (length current_list) > 0.5
      then (Inr (), log_msg ''SKIP'' [S ''Too many missing names. Skipping analysis.''] w)
      else
        (case json_file w username of
           Absent \<Rightarrow> (Inr (), w)
         | Unreadable \<Rightarrow> (Inr (), w)
         | Holds old_list \<Rightarrow>
             (case py_iter old_list of
                Inl e \<Rightarrow> (Inl e, w)
              | Inr olds \<Rightarrow>
             (case index_by_id olds [] of
                Inl e \<Rightarrow> (Inl e, w)
              | Inr old_map \<Rightarrow>
             (case index_by_id (map JObj current_list) [] of
                Inl e \<Rightarrow> (Inl e, w)
              | Inr cur_map \<Rightarrow>
                  let old_ids = map fst old_map;
                      cur_ids = map fst cur_map;
                      unfriended = entries_not_in old_map cur_ids;
                      new_friends = entries_not_in cur_map old_ids
                  in
                  if unfriended = [] \<and> new_friends = []
                  then (Inr (), log_msg ''INFO'' [S ''No changes detected.''] w)
                  else
                    let timestamp = now w;
                        w1 = print [S (newline @ ''--- ACTIVITY REPORT ---'')] w;
                        w2 = (if unfriended \<noteq> []
                              then w1\<lparr>console := console w1
                                        @ [Print [S cross_mark, S '' LOST ('', N (int (length unfriended)), S ''):'']]
                                        @ map lost_print unfriended\<rparr>
                              else w1);
                        w3 = (if new_friends \<noteq> []
                              then w2\<lparr>console := console w2
                                        @ [Print [S check_mark, S '' NEW ('', N (int (length new_friends)), S ''):'']]
                                        @ map new_print new_friends\<rparr>
                              else w2);
                        logs = map (lost_log timestamp) unfriended @ map (new_log timestamp) new_friends;
                        w4 = print [S (''-----------------------'' @ newline)] w3
                    in
                    (case log_append w4 of
                       None \<Rightarrow>
                         (Inr (), log_msg ''INFO'' [S ''Activity log updated.'']
                            (w4\<lparr>log_file := (log_file w4)(username := appended (log_file w4 username) logs)\<rparr>))
                     | Some st \<Rightarrow>
                         (Inr (), log_msg ''ERROR'' [S ''Log write failed: '', Exc]
                            (w4\<lparr>log_file := (log_file w4)(username := st)\<rparr>))))))))"

subsection \<open>\<^verbatim>\<open>load_cookie\<close>, \<^verbatim>\<open>get_headers\<close>, \<^verbatim>\<open>load_local_history\<close>, \<^verbatim>\<open>get_auth_user\<close>\<close>

text \<open>\<^verbatim>\<open>str.strip()\<close>, on the ASCII white space.\<close>

definition COOKIE_FILE :: string where
  "COOKIE_FILE = ''cookie.txt''"

definition quoted :: "string \<Rightarrow> string" where
  "quoted s = [CHR 0x27] @ s @ [CHR 0x27]"

definition is_space :: "char \<Rightarrow> bool" where
  "is_space c = (c \<in> set [CHR 0x09, CHR 0x0A, CHR 0x0B, CHR 0x0C, CHR 0x0D,
                              CHR 0x1C, CHR 0x1D, CHR 0x1E, CHR 0x1F, CHR 0x20])"

definition strip :: "string \<Rightarrow> string" where
  "strip s = rev (dropWhile is_space (rev (dropWhile is_space s)))"

text \<open>
  The cookie file is read when it exists; a read error is logged and, like an empty file,
  falls through to the prompt. \<^verbatim>\<open>input()\<close> prints its prompt and takes the next event of
  the standard input. Only the first \<^verbatim>\<open>input()\<close> is guarded against an interrupt.
\<close>

definition load_cookie :: "world \<Rightarrow> (error + string option) \<times> world" where
  "load_cookie w =
     (let (found, w0) =
            (case cookie_file w of
               Absent \<Rightarrow> (None, w)
             | Unreadable \<Rightarrow>
                 (None, log_msg ''ERROR'' [S ''Read error on '', S (quoted COOKIE_FILE), S '': '', Exc] w)
             | Holds text \<Rightarrow>
                 (if strip text \<noteq> [] then (Some (strip text), w) else (None, w)))
      in case found of
        Some content \<Rightarrow> (Inr (Some content), w0)
      | None \<Rightarrow>
          let w1 = log_msg ''WARN'' [S (quoted COOKIE_FILE), S '' not found or empty.''] w0;
              w2 = print [S ''Paste .ROBLOSECURITY cookie below:''] w1;
              w3 = print [S ''> ''] w2
          in (case stdin w3 of
                [] \<Rightarrow> (Inl EOFError, w3)
              | EndOfInput # rest \<Rightarrow> (Inl EOFError, w3\<lparr>stdin := rest\<rparr>)
              | Interrupt # rest \<Rightarrow> (Inr None, print [] (w3\<lparr>stdin := rest\<rparr>))
              | Line l # rest \<Rightarrow>
                  let cookie = strip l; w4 = w3\<lparr>stdin := rest\<rparr> in
                  if cookie = [] then (Inr None, w4)
                  else
                    let w5 = print [S ''Save to '', S (quoted COOKIE_FILE), S ''? (y/n) > ''] w4 in
                    (case stdin w5 of
                       [] \<Rightarrow> (Inl EOFError, w5)
                     | EndOfInput # rest' \<Rightarrow> (Inl EOFError, w5\<lparr>stdin := rest'\<rparr>)
                     | Interrupt # rest' \<Rightarrow> (Inl KeyboardInterrupt, w5\<lparr>stdin := rest'\<rparr>)
                     | Line a # rest' \<Rightarrow>
                         let w6 = w5\<lparr>stdin := rest'\<rparr> in
                         if strip a = ''y'' \<or> strip a = ''Y''
                         then (case cookie_write w6 of
                                 None \<Rightarrow>
                                   (Inr (Some cookie),
                                    log_msg ''INFO'' [S ''Saved to '', S (quoted COOKIE_FILE), S ''.'']
                                      (w6\<lparr>cookie_file := Holds cookie\<rparr>))
                               | Some st \<Rightarrow>
                                   (Inr (Some cookie),
                                    log_msg ''ERROR'' [S ''Save failed: '', Exc]
                                      (w6\<lparr>cookie_file := st\<rparr>)))
                         else (Inr (Some cookie), w6))))"

definition get_headers :: "string \<Rightarrow> headers" where
  "get_headers cookie =
     [(''Cookie'', ''.ROBLOSECURITY='' @ cookie),
      (''User-Agent'', ''Roblox/WinInet''),
      (''Content-Type'', ''application/json'')]"

text \<open>
  The stored snapshot, or the empty list when the file is absent or cannot be read or
  parsed (\<^verbatim>\<open>except: pass\<close>). Nothing is logged.
\<close>

definition load_local_history :: "jval \<Rightarrow> world \<Rightarrow> jval \<times> world" where
  "load_local_history username w =
     (case json_file w username of
        Holds v \<Rightarrow> (v, w)
      | Unreadable \<Rightarrow> (JArr [], w)
      | Absent \<Rightarrow> (JArr [], w))"

text \<open>
  Returns the pair \<^verbatim>\<open>(id, name)\<close>, or \<^verbatim>\<open>(None, None)\<close> after logging. A body without
  the two fields raises outside the \<^verbatim>\<open>RequestException\<close> handler.
\<close>

definition get_auth_user :: "string \<Rightarrow> world \<Rightarrow> (error + jval \<times> jval) \<times> world" where
  "get_auth_user cookie w =
     (let (r, w1) = send (AuthGet (get_headers cookie)) w in
      case r of
        RequestException \<Rightarrow>
          (Inr (JNull, JNull), log_msg ''ERROR'' [S ''Connection error: '', Exc] w1)
      | Resp status data \<Rightarrow>
          if status = 200
          then (case subscript data ''name'' of
                  Inl e \<Rightarrow> (Inl e, w1)
                | Inr name \<Rightarrow>
                    (case subscript data ''id'' of
                       Inl e \<Rightarrow> (Inl e, w1)
                     | Inr uid \<Rightarrow>
                         (Inr (uid, name),
                          log_msg ''INFO'' [S ''User: '', V name, S '' (ID: '', V uid, S '')''] w1)))
          else (Inr (JNull, JNull), log_msg ''ERROR'' [S ''Auth failed. Code: '', N status] w1))"

subsection \<open>\<^verbatim>\<open>fetch_friend_ids\<close>\<close>

text \<open>
  The \<^verbatim>\<open>while True\<close> loop, with its two variables \<open>cursor\<close> and \<open>all_friends\<close>. It has no
  bound, so it is a partial function: \<open>None\<close> means the loop never leaves. The cursor
  parameter is sent only when the cursor is truthy.
\<close>

partial_function (option) friends_loop ::
  "jval \<Rightarrow> string \<Rightarrow> jval \<Rightarrow> jval list \<Rightarrow> world \<Rightarrow> ((error + jval list) \<times> world) option" where
  "friends_loop user_id cookie cursor all_friends w =
     (let (r, w1) = send (FriendsGet user_id (get_headers cookie)
                            (if truthy cursor then Some cursor else None)) w in
      case r of
        RequestException \<Rightarrow>
          Some (Inr all_friends,
                log_msg ''ERROR'' [S ''Network error while fetching friends.''] w1)
      | Resp status data \<Rightarrow>
          if status = 200
          then (case py_get_or data ''PageItems'' (JArr []) of
                  Inl e \<Rightarrow> Some (Inl e, w1)
                | Inr first_items \<Rightarrow>
                    (case (if truthy first_items then Inr first_items
                           else py_get_or data ''data'' (JArr [])) of
                       Inl e \<Rightarrow> Some (Inl e, w1)
                     | Inr items \<Rightarrow>
                         (case py_iter items of
                            Inl e \<Rightarrow> Some (Inl e, w1)
                          | Inr new_items \<Rightarrow>
                              (case py_get_or data ''NextCursor'' JNull of
                                 Inl e \<Rightarrow> Some (Inl e, w1)
                               | Inr cursor' \<Rightarrow>
                                   if \<not> truthy cursor'
                                   then Some (Inr (all_friends @ new_items), w1)
                                   else friends_loop user_id cookie cursor'
                                          (all_friends @ new_items) w1))))
          else if status = 429
          then friends_loop user_id cookie cursor all_friends
                 (sleep RATE_LIMIT_DELAY
                    (log_msg ''WARN'' [S ''Rate limit (429). Retrying...''] w1))
          else Some (Inr all_friends,
                     log_msg ''ERROR'' [S ''Error fetching list: '', N status] w1))"

text \<open>
  The function is annotated \<^verbatim>\<open>Optional[List[Dict]]\<close>; the value it returns is an optional
  list here too, so that its caller can test it against \<^verbatim>\<open>None\<close>.
\<close>

definition fetch_friend_ids ::
  "jval \<Rightarrow> string \<Rightarrow> world \<Rightarrow> ((error + jval list option) \<times> world) option" where
  "fetch_friend_ids user_id cookie w =
     (case friends_loop user_id cookie JNull [] (log_msg ''INFO'' [S ''Fetching friend list...''] w) of
        None \<Rightarrow> None
      | Some (Inl e, w') \<Rightarrow> Some (Inl e, w')
      | Some (Inr all_friends, w') \<Rightarrow>
          Some (Inr (Some all_friends),
                log_msg ''INFO'' [S ''Found '', N (int (length all_friends)), S '' connections.''] w'))"

subsection \<open>\<^verbatim>\<open>fetch_user_details\<close>\<close>

text \<open>\<^verbatim>\<open>[f['id'] for f in friends]\<close>.\<close>

fun ids_of :: "jval list \<Rightarrow> error + jval list" where
  "ids_of [] = Inr []"
| "ids_of (f # fs) =
     (case subscript f ''id'' of
        Inl e \<Rightarrow> Inl e
      | Inr k \<Rightarrow> (case ids_of fs of Inl e \<Rightarrow> Inl e | Inr ks \<Rightarrow> Inr (k # ks)))"

text \<open>\<^verbatim>\<open>range(0, n, step)\<close>.\<close>

definition range_step :: "nat \<Rightarrow> nat \<Rightarrow> nat list" where
  "range_step n step = map (\<lambda>j. j * step) [0..<(n + step - 1) div step]"

text \<open>
  \<^verbatim>\<open>for attempt in range(MAX_RETRIES)\<close> for one batch: the list holds the attempt indices
  still to run. Status 200 merges the returned records into \<open>fetched_map\<close> and leaves the
  loop; 429 logs, sleeps \<open>(attempt + 1) * RATE_LIMIT_DELAY\<close> and goes on; any other status
  leaves the loop; a \<^verbatim>\<open>RequestException\<close> sleeps one second and goes on.
\<close>

fun attempts ::
  "nat list \<Rightarrow> nat \<Rightarrow> jval list \<Rightarrow> string \<Rightarrow> dict by_id \<Rightarrow> world \<Rightarrow> (error + dict by_id) \<times> world" where
  "attempts [] i batch cookie fetched_map w = (Inr fetched_map, w)"
| "attempts (attempt # rest) i batch cookie fetched_map w =
     (let (r, w1) = send (UsersPost (get_headers cookie) batch) w in
      case r of
        RequestException \<Rightarrow> attempts rest i batch cookie fetched_map (sleep 1 w1)
      | Resp status body \<Rightarrow>
          if status = 200
          then (case py_get_or body ''data'' (JArr []) of
                  Inl e \<Rightarrow> (Inl e, w1)
                | Inr data \<Rightarrow>
                    (case py_iter data of
                       Inl e \<Rightarrow> (Inl e, w1)
                     | Inr us \<Rightarrow>
                         (case index_by_id us fetched_map of
                            Inl e \<Rightarrow> (Inl e, w1)
                          | Inr fetched_map' \<Rightarrow> (Inr fetched_map', w1))))
          else if status = 429
          then let wait = (attempt + 1) * RATE_LIMIT_DELAY in
               attempts rest i batch cookie fetched_map
                 (sleep wait
                    (log_msg ''WARN'' [S ''Rate limit on batch '', N (int i), S ''. Retrying in '',
                                       N (int wait), S ''s...''] w1))
          else (Inr fetched_map, w1))"

text \<open>\<^verbatim>\<open>for i in range(0, len(user_ids), BATCH_SIZE)\<close>, with \<^verbatim>\<open>batch = user_ids[i:i + BATCH_SIZE]\<close>.\<close>

fun batches ::
  "nat list \<Rightarrow> jval list \<Rightarrow> string \<Rightarrow> dict by_id \<Rightarrow> world \<Rightarrow> (error + dict by_id) \<times> world" where
  "batches [] user_ids cookie fetched_map w = (Inr fetched_map, w)"
| "batches (i # is) user_ids cookie fetched_map w =
     (case attempts [0..<MAX_RETRIES] i (take BATCH_SIZE (drop i user_ids)) cookie fetched_map w of
        (Inl e, w') \<Rightarrow> (Inl e, w')
      | (Inr fetched_map', w') \<Rightarrow> batches is user_ids cookie fetched_map' w')"

text \<open>\<^verbatim>\<open>f.update({'name': ..., 'displayName': ..., 'hasVerifiedBadge': ...})\<close> from \<open>src\<close>.\<close>

definition update_details :: "dict \<Rightarrow> dict \<Rightarrow> dict" where
  "update_details f src =
     AList.update ''hasVerifiedBadge'' (dict_get src ''hasVerifiedBadge'')
       (AList.update ''displayName'' (dict_get src ''displayName'')
          (AList.update ''name'' (dict_get src ''name'') f))"

text \<open>Truthiness of what \<^verbatim>\<open>m.get(fid)\<close> returned: \<^verbatim>\<open>None\<close>, or a record.\<close>

fun truthy_opt :: "dict option \<Rightarrow> bool" where
  "truthy_opt None = False"
| "truthy_opt (Some d) = truthy (JObj d)"

text \<open>
  The merge loop: \<open>final_list\<close> and \<open>recovered\<close> are its two variables. API data wins over
  the local history, which is used only when its name is truthy.
\<close>

fun merge_loop ::
  "jval list \<Rightarrow> dict by_id \<Rightarrow> dict by_id \<Rightarrow> dict list \<Rightarrow> nat \<Rightarrow> error + dict list \<times> nat" where
  "merge_loop [] fetched_map local_data final_list recovered = Inr (final_list, recovered)"
| "merge_loop (JObj f # fs) fetched_map local_data final_list recovered =
     (case subscript (JObj f) ''id'' of
        Inl e \<Rightarrow> Inl e
      | Inr fid \<Rightarrow>
          (case getitem fetched_map fid of
             Inl e \<Rightarrow> Inl e
           | Inr api_data \<Rightarrow>
               (case getitem local_data fid of
                  Inl e \<Rightarrow> Inl e
                | Inr local_entry \<Rightarrow>
                    if truthy_opt api_data
                    then merge_loop fs fetched_map local_data
                           (final_list @ [update_details f (the api_data)]) recovered
                    else if truthy_opt local_entry \<and> truthy (dict_get (the local_entry) ''name'')
                    then merge_loop fs fetched_map local_data
                           (final_list @ [update_details f (the local_entry)]) (recovered + 1)
                    else merge_loop fs fetched_map local_data (final_list @ [f]) recovered)))"
| "merge_loop (f # fs) fetched_map local_data final_list recovered = Inl TypeError"

definition fetch_user_details ::
  "jval list \<Rightarrow> string \<Rightarrow> jval \<Rightarrow> world \<Rightarrow> (error + dict list) \<times> world" where
  "fetch_user_details friends cookie username w =
     (if friends = [] then (Inr [], w)
      else
        let w0 = log_msg ''INFO'' [S ''Fetching user details...''] w;
            (history, w1) = load_local_history username w0
        in
        (case py_iter history of
           Inl e \<Rightarrow> (Inl e, w1)
         | Inr hs \<Rightarrow>
        (case index_by_id hs [] of
           Inl e \<Rightarrow> (Inl e, w1)
         | Inr local_data \<Rightarrow>
        (case ids_of friends of
           Inl e \<Rightarrow> (Inl e, w1)
         | Inr user_ids \<Rightarrow>
        (case batches (range_step (length user_ids) BATCH_SIZE) user_ids cookie [] w1 of
           (Inl e, w2) \<Rightarrow> (Inl e, w2)
         | (Inr fetched_map, w2) \<Rightarrow>
        (case merge_loop friends fetched_map local_data [] 0 of
           Inl e \<Rightarrow> (Inl e, w2)
         | Inr (final_list, recovered) \<Rightarrow>
             (Inr final_list,
              if recovered \<noteq> 0
              then log_msg ''WARN'' [S ''Recovered '', N (int recovered), S '' names from local history.''] w2
              else w2)))))))"

subsection \<open>The main program\<close>

text \<open>
  How the process ends: \<^verbatim>\<open>sys.exit(n)\<close>, falling off the end of the script (exit code
  0), or an uncaught exception (a traceback, and a non-zero exit code).
\<close>

datatype ending = Exit nat | Uncaught error

fun nonzero_exit :: "ending \<Rightarrow> bool" where
  "nonzero_exit (Exit n) = (n \<noteq> 0)"
| "nonzero_exit (Uncaught e) = True"

definition main :: "world \<Rightarrow> (ending \<times> world) option" where
  "main w =
     (let w0 = print [S ''Roblox Friends Tracker | https://github.com/deogw ''] w in
      case load_cookie w0 of
        (Inl e, w1) \<Rightarrow> Some (Uncaught e, w1)
      | (Inr None, w1) \<Rightarrow> Some (Exit 1, log_msg ''EXIT'' [S ''Process terminated.''] w1)
      | (Inr (Some cookie), w1) \<Rightarrow>
          (case get_auth_user cookie w1 of
             (Inl e, w2) \<Rightarrow> Some (Uncaught e, w2)
           | (Inr (uid, username), w2) \<Rightarrow>
               if \<not> truthy uid then Some (Exit 1, w2)
               else
                 (case fetch_friend_ids uid cookie w2 of
                    None \<Rightarrow> None
                  | Some (Inl e, w3) \<Rightarrow> Some (Uncaught e, w3)
                  | Some (Inr None, w3) \<Rightarrow>
                      Some (Exit 1, log_msg ''STOP'' [S ''API Error. Halting.''] w3)
                  | Some (Inr (Some raw_friends), w3) \<Rightarrow>
                      (case fetch_user_details raw_friends cookie username w3 of
                         (Inl e, w4) \<Rightarrow> Some (Uncaught e, w4)
                       | (Inr data, w4) \<Rightarrow>
                           (case analyze_changes data username w4 of
                              (Inl e, w5) \<Rightarrow> Some (Uncaught e, w5)
                            | (Inr _, w5) \<Rightarrow>
                                (case save_database data username w5 of
                                   (Inl e, w6) \<Rightarrow> Some (Uncaught e, w6)
                                 | (Inr _, w6) \<Rightarrow> Some (Exit 0, w6)))))))"

subsection \<open>Well-formed records and sample data\<close>

text \<open>
  A record the script can index: it has an \<^verbatim>\<open>id\<close> field that can be a dictionary key.
  \<open>id_of\<close> is that key.
\<close>

definition has_id :: "dict \<Rightarrow> bool" where
  "has_id d = (case map_of d ''id'' of None \<Rightarrow> False | Some k \<Rightarrow> hashable k)"

definition id_of :: "dict \<Rightarrow> jval" where
  "id_of d = as_key (dict_get d ''id'')"

text \<open>
  A world in which nothing is stored, the cookie file holds a token, every request fails
  to connect and every write succeeds; the samples below change it where needed.
\<close>

definition quiet_world :: world where
  "quiet_world =
     \<lparr>cookie_file = Holds ''COOKIE'', json_file = (\<lambda>_. Absent), csv_file = (\<lambda>_. Absent),
      log_file = (\<lambda>_. Absent), stdin = [], net = (\<lambda>_. RequestException), sent = [],
      console = [], slept = [], now = ''2024-01-01 00:00:00'', cookie_write = None,
      json_write = None, csv_write = None, log_append = None\<rparr>"

definition alice :: jval where
  "alice = JStr ''alice''"

definition friend :: "int \<Rightarrow> string \<Rightarrow> dict" where
  "friend k name = [(''id'', JInt k), (''name'', JStr name)]"

definition entry :: "int \<Rightarrow> dict" where
  "entry k = [(''id'', JInt k)]"

text \<open>The world in which the snapshot of \<open>alice\<close> holds the given records.\<close>

definition snapshot_world :: "dict list \<Rightarrow> world" where
  "snapshot_world old =
     quiet_world\<lparr>json_file := (\<lambda>_. Absent)(alice := Holds (JArr (map JObj old)))\<rparr>"

text \<open>Five records of which one has no name: a nameless fraction of exactly 0.2.\<close>

definition five_friends :: "dict list" where
  "five_friends = [friend 1 ''a'', friend 2 ''b'', friend 3 ''c'', friend 4 ''d'', entry 5]"

text \<open>Two records of which one has no name: a nameless fraction of exactly 0.5.\<close>

definition half_named :: "dict list" where
  "half_named = [friend 1 ''a'', entry 2]"

text \<open>Three records of which two have no name.\<close>

definition mostly_nameless :: "dict list" where
  "mostly_nameless = [friend 1 ''a'', entry 2, entry 3]"

text \<open>The snapshot {1, 2, 3}, the current list {2, 3, 4}, and the snapshot {1, 3}.\<close>

definition snapshot_123 :: "dict list" where
  "snapshot_123 = [friend 1 ''a'', friend 2 ''b'', friend 3 ''c'']"

definition current_234 :: "dict list" where
  "current_234 = [friend 2 ''b'', friend 3 ''c'', friend 4 ''d'']"

definition snapshot_13 :: "dict list" where
  "snapshot_13 = [friend 1 ''a'', friend 3 ''c'']"

subsection \<open>Reading the friend-list loop\<close>

text \<open>
  What one pass of the \<^verbatim>\<open>while True\<close> loop of \<^verbatim>\<open>fetch_friend_ids\<close> takes from the body of a
  status-200 response that is a JSON object: the items
  (\<^verbatim>\<open>data.get('PageItems', []) or data.get('data', [])\<close>) and the next cursor
  (\<^verbatim>\<open>data.get('NextCursor')\<close>); and the request it sends for a given cursor.
\<close>

definition page_items :: "dict \<Rightarrow> jval" where
  "page_items d =
     (if truthy (dict_get_or d ''PageItems'' (JArr [])) then dict_get_or d ''PageItems'' (JArr [])
      else dict_get_or d ''data'' (JArr []))"

definition next_cursor :: "dict \<Rightarrow> jval" where
  "next_cursor d = dict_get_or d ''NextCursor'' JNull"

definition friends_request :: "jval \<Rightarrow> string \<Rightarrow> jval \<Rightarrow> request" where
  "friends_request user_id cookie cursor =
     FriendsGet user_id (get_headers cookie) (if truthy cursor then Some cursor else None)"

text \<open>
  A response after which the loop is left: a \<^verbatim>\<open>RequestException\<close>, a status other than 200
  and 429, or a status 200 whose body has no truthy next cursor or makes the loop body
  raise. After any other response (429, or a page with a truthy next cursor) the loop goes
  round again.
\<close>

fun leaves_loop :: "http_result \<Rightarrow> bool" where
  "leaves_loop RequestException = True"
| "leaves_loop (Resp status (JObj d)) =
     (if status = 200
      then (case py_iter (page_items d) of Inl e \<Rightarrow> True | Inr items \<Rightarrow> \<not> truthy (next_cursor d))
      else status \<noteq> 429)"
| "leaves_loop (Resp status body) = (status \<noteq> 429)"

text \<open>The world after a request has been issued.\<close>

definition asked :: "request \<Rightarrow> world \<Rightarrow> world" where
  "asked r w = snd (send r w)"

text \<open>The world after the loop has handled a 429: the request, the warning, the sleep.\<close>

definition rate_limited :: "request \<Rightarrow> world \<Rightarrow> world" where
  "rate_limited r w =
     sleep RATE_LIMIT_DELAY (log_msg ''WARN'' [S ''Rate limit (429). Retrying...''] (asked r w))"

text \<open>A page as the friends endpoint returns it.\<close>

definition page :: "jval list \<Rightarrow> jval \<Rightarrow> jval" where
  "page items cursor = JObj [(''PageItems'', JArr items), (''NextCursor'', cursor)]"

text \<open>
  Three response traces: every request is answered 429; the first two requests are answered
  429 and the third with a last page of one entry; and, for a run of the whole program, the
  identity check succeeds and every later request is answered 500, with the snapshot
  {1, 2, 3} on disk.
\<close>

definition busy_world :: world where
  "busy_world = quiet_world\<lparr>net := (\<lambda>n. Resp 429 JNull)\<rparr>"

definition flaky_world :: world where
  "flaky_world =
     quiet_world\<lparr>net := (\<lambda>n. if n < 2 then Resp 429 JNull
                                else Resp 200 (page [JObj (entry 1)] JNull))\<rparr>"

definition outage_world :: world where
  "outage_world =
     (snapshot_world snapshot_123)
       \<lparr>net := (\<lambda>n. if n = 0 then Resp 200 (JObj [(''id'', JInt 7), (''name'', alice)])
                     else Resp 500 JNull)\<rparr>"

text \<open>
  Three more traces: three pages with the cursors A, B and none; a 429 followed by a last
  page; and a last page at once.
\<close>

definition three_pages_world :: world where
  "three_pages_world =
     quiet_world\<lparr>net := (\<lambda>n. if n = 0 then Resp 200 (page [JObj (entry 1)] (JStr ''A''))
                                else if n = 1 then Resp 200 (page [JObj (entry 2)] (JStr ''B''))
                                else Resp 200 (page [JObj (entry 3)] JNull))\<rparr>"

definition retry_world :: world where
  "retry_world =
     quiet_world\<lparr>net := (\<lambda>n. if n = 0 then Resp 429 JNull
                                else Resp 200 (page [JObj (entry 1)] JNull))\<rparr>"

definition last_page_world :: world where
  "last_page_world = quiet_world\<lparr>net := (\<lambda>n. Resp 200 (page [JObj (entry 3)] JNull))\<rparr>"

section \<open>Properties\<close>

subsection \<open>Dictionaries keyed by identifier\<close>

lemma in_set_update:
  "(k', v') \<in> set (AList.update k v al) \<Longrightarrow> (k', v') \<in> set al \<or> (k', v') = (k, v)"
  by (induction al) (auto split: if_splits)

lemma index_by_id_ok:
  "\<forall>d \<in> set ds. has_id d \<Longrightarrow>
   \<exists>m'. index_by_id (map JObj ds) m = Inr m'
       \<and> set (map fst m') = set (map fst m) \<union> id_of ` set ds
       \<and> (distinct (map fst m) \<longrightarrow> distinct (map fst m'))
       \<and> (\<forall>(k, d) \<in> set m'. (k, d) \<in> set m \<or> (d \<in> set ds \<and> id_of d = k))"
proof (induction ds arbitrary: m)
  case Nil
  then show ?case by auto
next
  case (Cons d ds)
  then obtain k where k: "map_of d ''id'' = Some k" "hashable k"
    by (auto simp: has_id_def split: option.splits)
  let ?m1 = "AList.update (as_key k) d m"
  from Cons.prems have "\<forall>d \<in> set ds. has_id d" by simp
  from Cons.IH[OF this, of ?m1] obtain m' where m':
    "index_by_id (map JObj ds) ?m1 = Inr m'"
    "set (map fst m') = set (map fst ?m1) \<union> id_of ` set ds"
    "distinct (map fst ?m1) \<longrightarrow> distinct (map fst m')"
    "\<forall>(k, d) \<in> set m'. (k, d) \<in> set ?m1 \<or> (d \<in> set ds \<and> id_of d = k)"
    by blast
  have idd: "id_of d = as_key k"
    using k by (simp add: id_of_def dict_get_def dict_get_or_def)
  have 1: "index_by_id (map JObj (d # ds)) m = Inr m'"
    using k m'(1) by (simp add: setitem_def)
  have 2: "set (map fst m') = set (map fst m) \<union> id_of ` set (d # ds)"
    using m'(2) idd by (auto simp: dom_update)
  have 3: "distinct (map fst m) \<longrightarrow> distinct (map fst m')"
    using m'(3) by (simp add: distinct_update)
  have 4: "\<forall>(k', d') \<in> set m'. (k', d') \<in> set m \<or> (d' \<in> set (d # ds) \<and> id_of d' = k')"
  proof (clarify)
    fix k' d' assume a: "(k', d') \<in> set m'" "\<not> (d' \<in> set (d # ds) \<and> id_of d' = k')"
    with m'(4) have "(k', d') \<in> set ?m1" by auto
    then have "(k', d') \<in> set m \<or> (k', d') = (as_key k, d)"
      by (rule in_set_update)
    with a idd show "(k', d') \<in> set m" by auto
  qed
  from 1 2 3 4 show ?case by blast
qed

lemma index_by_id_fresh:
  assumes "\<forall>d \<in> set ds. has_id d"
  obtains m where "index_by_id (map JObj ds) [] = Inr m"
    "set (map fst m) = id_of ` set ds" "distinct (map fst m)"
    "\<forall>(k, d) \<in> set m. d \<in> set ds \<and> id_of d = k"
  using index_by_id_ok[OF assms, of "[]"] by auto

lemma entries_not_in_keys:
  "set (map fst (entries_not_in m ids)) = set (map fst m) - set ids"
  by (auto simp: entries_not_in_def image_iff)

lemma entries_not_in_distinct:
  "distinct (map fst m) \<Longrightarrow> distinct (map fst (entries_not_in m ids))"
  by (simp add: entries_not_in_def distinct_map_filter)

lemma entries_not_in_subset:
  "set (entries_not_in m ids) \<subseteq> set m"
  by (auto simp: entries_not_in_def)

lemma entries_not_in_empty:
  "entries_not_in m ids = [] \<longleftrightarrow> set (map fst m) \<subseteq> set ids"
  by (auto simp: entries_not_in_def filter_empty_conv image_iff)

subsection \<open>Saving\<close>

lemma writerows_ok:
  "\<forall>r \<in> set rows. set (map fst r) \<subseteq> set fieldnames \<Longrightarrow>
   writerows fieldnames rows acc
     = (Inr (), acc @ map (\<lambda>r. map (\<lambda>k. dict_get_or r k (JStr [])) fieldnames) rows)"
  by (induction rows arbitrary: acc) (auto simp: dict_to_list_def)

lemma save_database_skip:
  assumes "friends \<noteq> []" "real (count_nameless friends) / real (length friends) > 0.2"
  shows "save_database friends u w
         = (Inr (), log_msg ''PROTECTION''
                      [S ''Data corruption detected (names missing). Aborting save.''] w)"
  using assms by (cases friends) (simp_all add: save_database_def)

lemma save_database_json:
  assumes "friends \<noteq> []" "real (count_nameless friends) / real (length friends) \<le> 0.2"
    "json_write w = None"
  shows "json_file (snd (save_database friends u w)) u = Holds (JArr (map JObj friends))"
  using assms
  by (cases friends)
     (auto simp add: save_database_def log_msg_def Let_def split: option.splits prod.splits sum.splits)

lemma save_database_csv:
  assumes "friends \<noteq> []" "real (count_nameless friends) / real (length friends) \<le> 0.2"
    "csv_write w = None" "\<forall>f \<in> set friends. set (map fst f) \<subseteq> set (map fst (hd friends))"
  shows "fst (save_database friends u w) = Inr ()
       \<and> csv_file (snd (save_database friends u w)) u
         = Holds (map fst (hd friends),
                  map (\<lambda>f. map (\<lambda>k. dict_get_or f k (JStr [])) (map fst (hd friends))) friends)"
proof (cases friends)
  case Nil
  with assms show ?thesis by simp
next
  case (Cons first rest)
  have wr: "writerows (map fst first) (first # rest) []
     = (Inr (), [] @ map (\<lambda>r. map (\<lambda>k. dict_get_or r k (JStr [])) (map fst first)) (first # rest))"
    using assms(4) Cons by (intro writerows_ok) simp
  have g: "\<not> (real (count_nameless (first # rest)) / real (length (first # rest)) > 0.2)"
    using assms(2) Cons by simp
  show ?thesis
    using assms(3) g wr unfolding Cons
    by (cases "json_write w") (simp_all add: save_database_def log_msg_def Let_def del: writerows.simps)
qed

subsection \<open>Analysing\<close>

lemma analyze_changes_skip:
  assumes "cur \<noteq> []" "real (count_nameless cur) / real (length cur) > 0.5"
  shows "analyze_changes cur u w
         = (Inr (), log_msg ''SKIP'' [S ''Too many missing names. Skipping analysis.''] w)"
  using assms by (simp add: analyze_changes_def)

lemma analyze_changes_same:
  assumes "\<not> (cur \<noteq> [] \<and> real (count_nameless cur) / real (length cur) > 0.5)"
    "json_file w u = Holds (JArr olds)" "index_by_id olds [] = Inr old_map"
    "index_by_id (map JObj cur) [] = Inr cur_map"
    "entries_not_in old_map (map fst cur_map) = []" "entries_not_in cur_map (map fst old_map) = []"
  shows "analyze_changes cur u w = (Inr (), log_msg ''INFO'' [S ''No changes detected.''] w)"
  using assms by (auto simp add: analyze_changes_def Let_def)

lemma analyze_changes_report:
  assumes "\<not> (cur \<noteq> [] \<and> real (count_nameless cur) / real (length cur) > 0.5)"
    "json_file w u = Holds (JArr olds)" "index_by_id olds [] = Inr old_map"
    "index_by_id (map JObj cur) [] = Inr cur_map"
    "\<not> (entries_not_in old_map (map fst cur_map) = [] \<and> entries_not_in cur_map (map fst old_map) = [])"
    "log_append w = None"
  shows "fst (analyze_changes cur u w) = Inr ()"
    "log_file (snd (analyze_changes cur u w))
       = (log_file w)(u := appended (log_file w u)
            (map (lost_log (now w)) (entries_not_in old_map (map fst cur_map))
             @ map (new_log (now w)) (entries_not_in cur_map (map fst old_map))))"
    "json_file (snd (analyze_changes cur u w)) = json_file w"
    "csv_file (snd (analyze_changes cur u w)) = csv_file w"
    "Print [S (newline @ ''--- ACTIVITY REPORT ---'')] \<in> set (console (snd (analyze_changes cur u w)))"
  using assms by (auto simp add: analyze_changes_def Let_def log_msg_def print_def)

subsection \<open>Sample data\<close>

lemma sample_counts:
  "count_nameless five_friends = 1" "length five_friends = 5"
  "count_nameless half_named = 1" "length half_named = 2"
  "count_nameless mostly_nameless = 2" "length mostly_nameless = 3"
  by (simp_all add: five_friends_def half_named_def mostly_nameless_def count_nameless_def
      nameless_def dict_get_def dict_get_or_def friend_def entry_def)

lemma has_id_samples [simp]: "has_id (friend k n)" "has_id (entry k)"
  by (simp_all add: has_id_def friend_def entry_def)

lemma id_of_samples [simp]: "id_of (friend k n) = JInt k" "id_of (entry k) = JInt k"
  by (simp_all add: id_of_def friend_def entry_def dict_get_def dict_get_or_def)

text \<open>
  C2 (as stated, refuted). Five records, one without a name: the nameless fraction is
  exactly 0.2, which is not below 0.2, and both files are written.
\<close>

theorem save_database_at_threshold:
  "real (count_nameless five_friends) / real (length five_friends) \<ge> 0.2
   \<and> json_file quiet_world alice = Absent
   \<and> json_file (snd (save_database five_friends alice quiet_world)) alice
       = Holds (JArr (map JObj five_friends))
   \<and> csv_file quiet_world alice = Absent
   \<and> csv_file (snd (save_database five_friends alice quiet_world)) alice
       = Holds ([''id'', ''name''],
                [[JInt 1, JStr ''a''], [JInt 2, JStr ''b''], [JInt 3, JStr ''c''],
                 [JInt 4, JStr ''d''], [JInt 5, JStr '''']])"
  by (simp add: save_database_def five_friends_def count_nameless_def nameless_def dict_get_def
      quiet_world_def log_msg_def dict_to_list_def dict_get_or_def friend_def entry_def alice_def)

text \<open>
  C2 (amended). For a non-empty list: when the nameless fraction is strictly above 0.2
  neither file is touched; when it is at most 0.2 the structured file is written (unless
  the write fails), and so is the tabular export when every record's fields are among
  those of the first record.
\<close>

theorem save_database_guard:
  "friends \<noteq> [] \<Longrightarrow>
     (0.2 < real (count_nameless friends) / real (length friends) \<longrightarrow>
        fst (save_database friends u w) = Inr ()
      \<and> json_file (snd (save_database friends u w)) = json_file w
      \<and> csv_file (snd (save_database friends u w)) = csv_file w)
   \<and> (real (count_nameless friends) / real (length friends) \<le> 0.2 \<and> json_write w = None \<longrightarrow>
        json_file (snd (save_database friends u w)) u = Holds (JArr (map JObj friends)))
   \<and> (real (count_nameless friends) / real (length friends) \<le> 0.2 \<and> csv_write w = None
        \<and> (\<forall>f \<in> set friends. set (map fst f) \<subseteq> set (map fst (hd friends))) \<longrightarrow>
        fst (save_database friends u w) = Inr ()
      \<and> csv_file (snd (save_database friends u w)) u
          = Holds (map fst (hd friends),
                   map (\<lambda>f. map (\<lambda>k. dict_get_or f k (JStr [])) (map fst (hd friends))) friends))"
  using save_database_json[of friends w u] save_database_csv[of friends w u]
  by (auto simp: save_database_skip log_msg_def)

theorem save_database_guard_witness:
  "(mostly_nameless \<noteq> []
    \<and> 0.2 < real (count_nameless mostly_nameless) / real (length mostly_nameless)
    \<and> json_file (snd (save_database mostly_nameless alice (snapshot_world five_friends)))
        = json_file (snapshot_world five_friends)
    \<and> csv_file (snd (save_database mostly_nameless alice (snapshot_world five_friends)))
        = csv_file (snapshot_world five_friends))
   \<and> (five_friends \<noteq> []
    \<and> real (count_nameless five_friends) / real (length five_friends) \<le> 0.2
    \<and> json_write quiet_world = None \<and> csv_write quiet_world = None
    \<and> list_all (\<lambda>f. set (map fst f) \<subseteq> set (map fst (hd five_friends))) five_friends
    \<and> json_file (snd (save_database five_friends alice quiet_world)) alice
        = Holds (JArr (map JObj five_friends))
    \<and> csv_file (snd (save_database five_friends alice quiet_world)) alice
        = Holds (map fst (hd five_friends),
                 map (\<lambda>f. map (\<lambda>k. dict_get_or f k (JStr [])) (map fst (hd five_friends)))
                   five_friends))"
proof -
  have a1: "mostly_nameless \<noteq> []" by (simp add: mostly_nameless_def)
  have a2: "0.2 < real (count_nameless mostly_nameless) / real (length mostly_nameless)"
    by (simp add: sample_counts)
  have b1: "five_friends \<noteq> []" by (simp add: five_friends_def)
  have b2: "real (count_nameless five_friends) / real (length five_friends) \<le> 0.2"
    by (simp add: sample_counts)
  have b3: "json_write quiet_world = None" "csv_write quiet_world = None"
    by (simp_all add: quiet_world_def)
  have b4: "\<forall>f \<in> set five_friends. set (map fst f) \<subseteq> set (map fst (hd five_friends))"
    by (simp add: five_friends_def friend_def entry_def)
  from save_database_guard[OF a1, of alice "snapshot_world five_friends"] a2
  have A: "json_file (snd (save_database mostly_nameless alice (snapshot_world five_friends)))
        = json_file (snapshot_world five_friends)
    \<and> csv_file (snd (save_database mostly_nameless alice (snapshot_world five_friends)))
        = csv_file (snapshot_world five_friends)"
    by blast
  from save_database_guard[OF b1, of alice quiet_world] b2 b3 b4
  have B: "json_file (snd (save_database five_friends alice quiet_world)) alice
        = Holds (JArr (map JObj five_friends))
    \<and> csv_file (snd (save_database five_friends alice quiet_world)) alice
        = Holds (map fst (hd five_friends),
                 map (\<lambda>f. map (\<lambda>k. dict_get_or f k (JStr [])) (map fst (hd five_friends)))
                   five_friends)"
    by blast
  from a1 a2 b1 b2 b3 b4 A B show ?thesis by (simp add: list_all_iff)
qed

lemma analyze_changes_wf:
  assumes old: "\<forall>d \<in> set old. has_id d" and cur: "\<forall>d \<in> set cur. has_id d"
    and snap: "json_file w u = Holds (JArr (map JObj old))"
    and guard: "\<not> (cur \<noteq> [] \<and> real (count_nameless cur) / real (length cur) > 0.5)"
  obtains lost new where
    "set (map fst lost) = id_of ` set old - id_of ` set cur" "distinct (map fst lost)"
    "set (map fst new) = id_of ` set cur - id_of ` set old" "distinct (map fst new)"
    "\<forall>(k, d) \<in> set lost. d \<in> set old \<and> id_of d = k"
    "\<forall>(k, d) \<in> set new. d \<in> set cur \<and> id_of d = k"
    "lost = [] \<and> new = [] \<Longrightarrow>
       analyze_changes cur u w = (Inr (), log_msg ''INFO'' [S ''No changes detected.''] w)"
    "\<not> (lost = [] \<and> new = []) \<Longrightarrow> log_append w = None \<Longrightarrow>
       fst (analyze_changes cur u w) = Inr ()
     \<and> log_file (snd (analyze_changes cur u w))
         = (log_file w)(u := appended (log_file w u)
              (map (lost_log (now w)) lost @ map (new_log (now w)) new))
     \<and> json_file (snd (analyze_changes cur u w)) = json_file w
     \<and> csv_file (snd (analyze_changes cur u w)) = csv_file w
     \<and> Print [S (newline @ ''--- ACTIVITY REPORT ---'')]
           \<in> set (console (snd (analyze_changes cur u w)))"
proof -
  from index_by_id_fresh[OF old] obtain old_map where om:
    "index_by_id (map JObj old) [] = Inr old_map"
    "set (map fst old_map) = id_of ` set old" "distinct (map fst old_map)"
    "\<forall>(k, d) \<in> set old_map. d \<in> set old \<and> id_of d = k"
    by blast
  from index_by_id_fresh[OF cur] obtain cur_map where cm:
    "index_by_id (map JObj cur) [] = Inr cur_map"
    "set (map fst cur_map) = id_of ` set cur" "distinct (map fst cur_map)"
    "\<forall>(k, d) \<in> set cur_map. d \<in> set cur \<and> id_of d = k"
    by blast
  let ?lost = "entries_not_in old_map (map fst cur_map)"
  let ?new = "entries_not_in cur_map (map fst old_map)"
  show thesis
  proof (rule that[of ?lost ?new])
    show "set (map fst ?lost) = id_of ` set old - id_of ` set cur"
      using om(2) cm(2) by (simp only: entries_not_in_keys)
    show "set (map fst ?new) = id_of ` set cur - id_of ` set old"
      using om(2) cm(2) by (simp only: entries_not_in_keys)
    show "distinct (map fst ?lost)" using om(3) by (rule entries_not_in_distinct)
    show "distinct (map fst ?new)" using cm(3) by (rule entries_not_in_distinct)
    show "\<forall>(k, d) \<in> set ?lost. d \<in> set old \<and> id_of d = k"
      using om(4) entries_not_in_subset[of old_map "map fst cur_map"] by blast
    show "\<forall>(k, d) \<in> set ?new. d \<in> set cur \<and> id_of d = k"
      using cm(4) entries_not_in_subset[of cur_map "map fst old_map"] by blast
    show "analyze_changes cur u w = (Inr (), log_msg ''INFO'' [S ''No changes detected.''] w)"
      if "?lost = [] \<and> ?new = []"
      using that by (intro analyze_changes_same[OF guard snap om(1) cm(1)]) simp_all
    show "fst (analyze_changes cur u w) = Inr ()
     \<and> log_file (snd (analyze_changes cur u w))
         = (log_file w)(u := appended (log_file w u)
              (map (lost_log (now w)) ?lost @ map (new_log (now w)) ?new))
     \<and> json_file (snd (analyze_changes cur u w)) = json_file w
     \<and> csv_file (snd (analyze_changes cur u w)) = csv_file w
     \<and> Print [S (newline @ ''--- ACTIVITY REPORT ---'')]
           \<in> set (console (snd (analyze_changes cur u w)))"
      if "\<not> (?lost = [] \<and> ?new = [])" "log_append w = None"
      using analyze_changes_report[OF guard snap om(1) cm(1) that] by blast
  qed
qed

lemma keys_empty_iff: "map fst m = [] \<longleftrightarrow> m = []"
  by simp

text \<open>
  C4. With the guard passed, a readable snapshot and records that all carry an identifier:
  the removed entries are exactly the old identifiers that are not current, the added
  ones the current identifiers that are not old, each once; one line per entry is appended
  to the activity log, the removals first; and when the two identifier sets are equal the
  analyzer logs "No changes detected." and leaves the activity log as it is.
\<close>

theorem analyze_changes_diff:
  assumes "\<forall>d \<in> set old. has_id d" and "\<forall>d \<in> set cur. has_id d"
    and "json_file w u = Holds (JArr (map JObj old))"
    and "\<not> (cur \<noteq> [] \<and> real (count_nameless cur) / real (length cur) > 0.5)"
    and "log_append w = None"
  shows "\<exists>lost new.
           set (map fst lost) = id_of ` set old - id_of ` set cur
         \<and> length lost = card (id_of ` set old - id_of ` set cur)
         \<and> set (map fst new) = id_of ` set cur - id_of ` set old
         \<and> length new = card (id_of ` set cur - id_of ` set old)
         \<and> (\<forall>(k, d) \<in> set lost. d \<in> set old \<and> id_of d = k)
         \<and> (\<forall>(k, d) \<in> set new. d \<in> set cur \<and> id_of d = k)
         \<and> fst (analyze_changes cur u w) = Inr ()
         \<and> (if id_of ` set old = id_of ` set cur
             then analyze_changes cur u w
                    = (Inr (), log_msg ''INFO'' [S ''No changes detected.''] w)
                  \<and> log_file (snd (analyze_changes cur u w)) = log_file w
             else log_file (snd (analyze_changes cur u w)) u
                    = appended (log_file w u)
                        (map (lost_log (now w)) lost @ map (new_log (now w)) new))"
proof -
  from analyze_changes_wf[OF assms(1-4)] obtain lost new where ln:
    "set (map fst lost) = id_of ` set old - id_of ` set cur" "distinct (map fst lost)"
    "set (map fst new) = id_of ` set cur - id_of ` set old" "distinct (map fst new)"
    "\<forall>(k, d) \<in> set lost. d \<in> set old \<and> id_of d = k"
    "\<forall>(k, d) \<in> set new. d \<in> set cur \<and> id_of d = k"
    "lost = [] \<and> new = [] \<Longrightarrow>
       analyze_changes cur u w = (Inr (), log_msg ''INFO'' [S ''No changes detected.''] w)"
    "\<not> (lost = [] \<and> new = []) \<Longrightarrow> log_append w = None \<Longrightarrow>
       fst (analyze_changes cur u w) = Inr ()
     \<and> log_file (snd (analyze_changes cur u w))
         = (log_file w)(u := appended (log_file w u)
              (map (lost_log (now w)) lost @ map (new_log (now w)) new))
     \<and> json_file (snd (analyze_changes cur u w)) = json_file w
     \<and> csv_file (snd (analyze_changes cur u w)) = csv_file w
     \<and> Print [S (newline @ ''--- ACTIVITY REPORT ---'')]
           \<in> set (console (snd (analyze_changes cur u w)))"
    by blast
  have len1: "length lost = card (id_of ` set old - id_of ` set cur)"
    using distinct_card[OF ln(2)] ln(1) by simp
  have len2: "length new = card (id_of ` set cur - id_of ` set old)"
    using distinct_card[OF ln(4)] ln(3) by simp
  have empty_iff: "(lost = [] \<and> new = []) \<longleftrightarrow> id_of ` set old = id_of ` set cur"
  proof -
    have "lost = [] \<longleftrightarrow> id_of ` set old - id_of ` set cur = {}"
      using ln(1) by (metis keys_empty_iff set_empty)
    moreover have "new = [] \<longleftrightarrow> id_of ` set cur - id_of ` set old = {}"
      using ln(3) by (metis keys_empty_iff set_empty)
    ultimately show ?thesis by blast
  qed
  show ?thesis
  proof (cases "id_of ` set old = id_of ` set cur")
    case True
    with empty_iff ln(7) have eq:
      "analyze_changes cur u w = (Inr (), log_msg ''INFO'' [S ''No changes detected.''] w)"
      by blast
    show ?thesis
      apply (rule exI[of _ lost], rule exI[of _ new])
      using ln(1,3,5,6) len1 len2 True eq by (simp add: log_msg_def)
  next
    case False
    with empty_iff ln(8) assms(5) have r:
      "fst (analyze_changes cur u w) = Inr ()"
      "log_file (snd (analyze_changes cur u w))
         = (log_file w)(u := appended (log_file w u)
              (map (lost_log (now w)) lost @ map (new_log (now w)) new))"
      by blast+
    show ?thesis
      apply (rule exI[of _ lost], rule exI[of _ new])
      using ln(1,3,5,6) len1 len2 False r by simp
  qed
qed

lemma sample_sets:
  "id_of ` set snapshot_123 = {JInt 1, JInt 2, JInt 3}"
  "id_of ` set current_234 = {JInt 2, JInt 3, JInt 4}"
  "id_of ` set snapshot_13 = {JInt 1, JInt 3}"
  "id_of ` set half_named = {JInt 1, JInt 2}"
  by (simp_all add: snapshot_123_def current_234_def snapshot_13_def half_named_def)

lemma sample_has_id:
  "\<forall>d \<in> set snapshot_123. has_id d" "\<forall>d \<in> set current_234. has_id d"
  "\<forall>d \<in> set snapshot_13. has_id d" "\<forall>d \<in> set half_named. has_id d"
  by (simp_all add: snapshot_123_def current_234_def snapshot_13_def half_named_def)

lemma snapshot_world_simps:
  "json_file (snapshot_world old) alice = Holds (JArr (map JObj old))"
  "log_append (snapshot_world old) = None"
  "log_file (snapshot_world old) = (\<lambda>_. Absent)"
  "csv_file (snapshot_world old) = (\<lambda>_. Absent)"
  "now (snapshot_world old) = ''2024-01-01 00:00:00''"
  "console (snapshot_world old) = []"
  by (simp_all add: snapshot_world_def quiet_world_def)

lemma sample_no_nameless:
  "count_nameless current_234 = 0" "count_nameless snapshot_123 = 0"
  by (simp_all add: current_234_def snapshot_123_def count_nameless_def nameless_def friend_def
      dict_get_def dict_get_or_def)

lemma sample_guards:
  "\<not> (current_234 \<noteq> [] \<and> real (count_nameless current_234) / real (length current_234) > 0.5)"
  "\<not> (snapshot_123 \<noteq> [] \<and> real (count_nameless snapshot_123) / real (length snapshot_123) > 0.5)"
  "\<not> (half_named \<noteq> [] \<and> real (count_nameless half_named) / real (length half_named) > 0.5)"
  "\<not> (([]::dict list) \<noteq> [] \<and> real (count_nameless []) / real (length ([]::dict list)) > 0.5)"
  by (simp_all add: sample_no_nameless sample_counts)

lemma sample_diffs:
  "id_of ` set snapshot_123 - id_of ` set current_234 = {JInt 1}"
  "id_of ` set current_234 - id_of ` set snapshot_123 = {JInt 4}"
  by (simp_all add: sample_sets insert_Diff_if)

lemma sample_differ:
  "id_of ` set snapshot_123 \<noteq> id_of ` set current_234"
  "id_of ` set snapshot_13 \<noteq> id_of ` set half_named"
proof -
  have "JInt 1 \<in> id_of ` set snapshot_123" "JInt 1 \<notin> id_of ` set current_234"
    by (simp_all add: sample_sets)
  then show "id_of ` set snapshot_123 \<noteq> id_of ` set current_234" by metis
  have "JInt 2 \<notin> id_of ` set snapshot_13" "JInt 2 \<in> id_of ` set half_named"
    by (simp_all add: sample_sets)
  then show "id_of ` set snapshot_13 \<noteq> id_of ` set half_named" by metis
qed

theorem analyze_changes_diff_witness:
  "list_all has_id snapshot_123 \<and> list_all has_id current_234
   \<and> json_file (snapshot_world snapshot_123) alice = Holds (JArr (map JObj snapshot_123))
   \<and> real (count_nameless current_234) / real (length current_234) \<le> 0.5
   \<and> log_append (snapshot_world snapshot_123) = None
   \<and> id_of ` set snapshot_123 - id_of ` set current_234 = {JInt 1}
   \<and> id_of ` set current_234 - id_of ` set snapshot_123 = {JInt 4}
   \<and> (\<exists>lost new. length lost = 1 \<and> length new = 1
        \<and> set (map fst lost) = {JInt 1} \<and> set (map fst new) = {JInt 4}
        \<and> log_file (snd (analyze_changes current_234 alice (snapshot_world snapshot_123))) alice
            = Holds (map (lost_log ''2024-01-01 00:00:00'') lost
                     @ map (new_log ''2024-01-01 00:00:00'') new))
   \<and> analyze_changes snapshot_123 alice (snapshot_world snapshot_123)
       = (Inr (), log_msg ''INFO'' [S ''No changes detected.''] (snapshot_world snapshot_123))"
proof -
  note T = analyze_changes_diff[OF sample_has_id(1) sample_has_id(2) snapshot_world_simps(1)
      sample_guards(1) snapshot_world_simps(2)]
  have A: "\<exists>lost new. length lost = 1 \<and> length new = 1
        \<and> set (map fst lost) = {JInt 1} \<and> set (map fst new) = {JInt 4}
        \<and> log_file (snd (analyze_changes current_234 alice (snapshot_world snapshot_123))) alice
            = Holds (map (lost_log ''2024-01-01 00:00:00'') lost
                     @ map (new_log ''2024-01-01 00:00:00'') new)"
    using T
    apply (elim exE conjE)
    subgoal for lost new
      apply (rule exI[of _ lost], rule exI[of _ new])
      using sample_differ(1) by (simp add: sample_diffs snapshot_world_simps)
    done
  have B: "analyze_changes snapshot_123 alice (snapshot_world snapshot_123)
       = (Inr (), log_msg ''INFO'' [S ''No changes detected.''] (snapshot_world snapshot_123))"
    using analyze_changes_diff[OF sample_has_id(1) sample_has_id(1) snapshot_world_simps(1)
      sample_guards(2) snapshot_world_simps(2)]
    apply (elim exE conjE)
    apply (simp only: if_True)
    done
  have h: "list_all has_id snapshot_123" "list_all has_id current_234"
    using sample_has_id(1,2) by (simp_all add: list_all_iff)
  have g2: "real (count_nameless current_234) / real (length current_234) \<le> 0.5"
    by (simp add: sample_no_nameless)
  show ?thesis
    using h g2 A B sample_diffs snapshot_world_simps(1)[of snapshot_123]
      snapshot_world_simps(2)[of snapshot_123]
    apply -
    apply (intro conjI)
    apply assumption+
    done
qed

lemma index_half:
  "index_by_id (map JObj snapshot_13) [] = Inr [(JInt 1, friend 1 ''a''), (JInt 3, friend 3 ''c'')]"
  "index_by_id (map JObj half_named) [] = Inr [(JInt 1, friend 1 ''a''), (JInt 2, entry 2)]"
  by (simp_all add: snapshot_13_def half_named_def friend_def entry_def setitem_def)

lemma entries_half:
  "entries_not_in [(JInt 1, friend 1 ''a''), (JInt 3, friend 3 ''c'')]
     (map fst [(JInt 1, friend 1 ''a''), (JInt 2, entry 2)]) = [(JInt 3, friend 3 ''c'')]"
  "entries_not_in [(JInt 1, friend 1 ''a''), (JInt 2, entry 2)]
     (map fst [(JInt 1, friend 1 ''a''), (JInt 3, friend 3 ''c'')]) = [(JInt 2, entry 2)]"
  by (simp_all add: entries_not_in_def)

text \<open>
  C3 (as stated, refuted). Two records, one without a name: the nameless fraction is
  exactly 0.5, and the analysis runs: the report is printed and two lines are appended to
  the activity log.
\<close>

theorem analyze_changes_at_half:
  "real (count_nameless half_named) / real (length half_named) \<ge> 0.5
   \<and> log_file (snapshot_world snapshot_13) alice = Absent
   \<and> log_file (snd (analyze_changes half_named alice (snapshot_world snapshot_13))) alice
       = Holds [lost_log ''2024-01-01 00:00:00'' (JInt 3, friend 3 ''c''),
                new_log ''2024-01-01 00:00:00'' (JInt 2, entry 2)]
   \<and> Print [S (newline @ ''--- ACTIVITY REPORT ---'')]
       \<in> set (console (snd (analyze_changes half_named alice (snapshot_world snapshot_13))))"
proof -
  have ne: "\<not> (entries_not_in [(JInt 1, friend 1 ''a''), (JInt 3, friend 3 ''c'')]
                  (map fst [(JInt 1, friend 1 ''a''), (JInt 2, entry 2)]) = []
              \<and> entries_not_in [(JInt 1, friend 1 ''a''), (JInt 2, entry 2)]
                  (map fst [(JInt 1, friend 1 ''a''), (JInt 3, friend 3 ''c'')]) = [])"
    by (simp only: entries_half) simp
  note R = analyze_changes_report[OF sample_guards(3) snapshot_world_simps(1) index_half(1)
      index_half(2) ne snapshot_world_simps(2)]
  have 1: "real (count_nameless half_named) / real (length half_named) \<ge> 0.5"
    by (simp add: sample_counts)
  have 2: "log_file (snapshot_world snapshot_13) alice = Absent"
    by (simp add: snapshot_world_simps)
  have 3: "log_file (snd (analyze_changes half_named alice (snapshot_world snapshot_13))) alice
       = Holds [lost_log ''2024-01-01 00:00:00'' (JInt 3, friend 3 ''c''),
                new_log ''2024-01-01 00:00:00'' (JInt 2, entry 2)]"
    by (simp only: R(2) entries_half snapshot_world_simps) simp
  show ?thesis
    using 1 2 3 R(5)
    apply -
    apply (intro conjI)
    apply assumption+
    done
qed

text \<open>
  C3 (amended). For a non-empty list whose nameless fraction is strictly above 0.5, the
  analyzer only logs that it skips: no report, and the activity log is untouched. Otherwise
  (the fraction is at most 0.5, or the list is empty) it proceeds: with a readable snapshot
  and records that carry identifiers, it prints the report and appends at least one line
  when the identifier sets differ, and logs "No changes detected." when they are equal.
\<close>

theorem analyze_changes_guard:
  "(cur \<noteq> [] \<and> 0.5 < real (count_nameless cur) / real (length cur) \<longrightarrow>
      analyze_changes cur u w
        = (Inr (), log_msg ''SKIP'' [S ''Too many missing names. Skipping analysis.''] w)
    \<and> log_file (snd (analyze_changes cur u w)) = log_file w)
   \<and> (\<not> (cur \<noteq> [] \<and> 0.5 < real (count_nameless cur) / real (length cur))
       \<and> (\<forall>d \<in> set old. has_id d) \<and> (\<forall>d \<in> set cur. has_id d)
       \<and> json_file w u = Holds (JArr (map JObj old)) \<and> log_append w = None \<longrightarrow>
      (if id_of ` set old = id_of ` set cur
       then analyze_changes cur u w
              = (Inr (), log_msg ''INFO'' [S ''No changes detected.''] w)
       else Print [S (newline @ ''--- ACTIVITY REPORT ---'')]
              \<in> set (console (snd (analyze_changes cur u w)))
          \<and> (\<exists>logs. logs \<noteq> []
                \<and> log_file (snd (analyze_changes cur u w)) u = appended (log_file w u) logs)))"
proof (intro conjI impI)
  assume a: "cur \<noteq> [] \<and> 0.5 < real (count_nameless cur) / real (length cur)"
  then show s: "analyze_changes cur u w
        = (Inr (), log_msg ''SKIP'' [S ''Too many missing names. Skipping analysis.''] w)"
    using analyze_changes_skip[of cur u w] by simp
  show "log_file (snd (analyze_changes cur u w)) = log_file w"
    by (simp add: s log_msg_def)
next
  assume a: "\<not> (cur \<noteq> [] \<and> 0.5 < real (count_nameless cur) / real (length cur))
       \<and> (\<forall>d \<in> set old. has_id d) \<and> (\<forall>d \<in> set cur. has_id d)
       \<and> json_file w u = Holds (JArr (map JObj old)) \<and> log_append w = None"
  then have g: "\<not> (cur \<noteq> [] \<and> 0.5 < real (count_nameless cur) / real (length cur))"
    and o: "\<forall>d \<in> set old. has_id d" and c: "\<forall>d \<in> set cur. has_id d"
    and f: "json_file w u = Holds (JArr (map JObj old))" and l: "log_append w = None"
    by simp_all
  from analyze_changes_wf[OF o c f g] obtain lost new where ln:
    "set (map fst lost) = id_of ` set old - id_of ` set cur" "distinct (map fst lost)"
    "set (map fst new) = id_of ` set cur - id_of ` set old" "distinct (map fst new)"
    "\<forall>(k, d) \<in> set lost. d \<in> set old \<and> id_of d = k"
    "\<forall>(k, d) \<in> set new. d \<in> set cur \<and> id_of d = k"
    "lost = [] \<and> new = [] \<Longrightarrow>
       analyze_changes cur u w = (Inr (), log_msg ''INFO'' [S ''No changes detected.''] w)"
    "\<not> (lost = [] \<and> new = []) \<Longrightarrow> log_append w = None \<Longrightarrow>
       fst (analyze_changes cur u w) = Inr ()
     \<and> log_file (snd (analyze_changes cur u w))
         = (log_file w)(u := appended (log_file w u)
              (map (lost_log (now w)) lost @ map (new_log (now w)) new))
     \<and> json_file (snd (analyze_changes cur u w)) = json_file w
     \<and> csv_file (snd (analyze_changes cur u w)) = csv_file w
     \<and> Print [S (newline @ ''--- ACTIVITY REPORT ---'')]
           \<in> set (console (snd (analyze_changes cur u w)))"
    by blast
  have empty_iff: "(lost = [] \<and> new = []) \<longleftrightarrow> id_of ` set old = id_of ` set cur"
  proof -
    have "lost = [] \<longleftrightarrow> id_of ` set old - id_of ` set cur = {}"
      using ln(1) by (metis keys_empty_iff set_empty)
    moreover have "new = [] \<longleftrightarrow> id_of ` set cur - id_of ` set old = {}"
      using ln(3) by (metis keys_empty_iff set_empty)
    ultimately show ?thesis by blast
  qed
  show "if id_of ` set old = id_of ` set cur
       then analyze_changes cur u w
              = (Inr (), log_msg ''INFO'' [S ''No changes detected.''] w)
       else Print [S (newline @ ''--- ACTIVITY REPORT ---'')]
              \<in> set (console (snd (analyze_changes cur u w)))
          \<and> (\<exists>logs. logs \<noteq> []
                \<and> log_file (snd (analyze_changes cur u w)) u = appended (log_file w u) logs)"
  proof (cases "id_of ` set old = id_of ` set cur")
    case True
    with empty_iff ln(7) show ?thesis by simp
  next
    case False
    with empty_iff have ne: "\<not> (lost = [] \<and> new = [])" by simp
    from ln(8)[OF ne l] have r:
      "log_file (snd (analyze_changes cur u w))
         = (log_file w)(u := appended (log_file w u)
              (map (lost_log (now w)) lost @ map (new_log (now w)) new))"
      "Print [S (newline @ ''--- ACTIVITY REPORT ---'')]
           \<in> set (console (snd (analyze_changes cur u w)))"
      by simp_all
    have "map (lost_log (now w)) lost @ map (new_log (now w)) new \<noteq> []"
      using ne by simp
    moreover have "log_file (snd (analyze_changes cur u w)) u
        = appended (log_file w u) (map (lost_log (now w)) lost @ map (new_log (now w)) new)"
      by (simp add: r(1))
    ultimately have "\<exists>logs. logs \<noteq> []
        \<and> log_file (snd (analyze_changes cur u w)) u = appended (log_file w u) logs"
      by (intro exI conjI)
    with False r(2) show ?thesis by simp
  qed
qed

theorem analyze_changes_guard_witness:
  "mostly_nameless \<noteq> []
   \<and> 0.5 < real (count_nameless mostly_nameless) / real (length mostly_nameless)
   \<and> analyze_changes mostly_nameless alice (snapshot_world snapshot_13)
       = (Inr (), log_msg ''SKIP'' [S ''Too many missing names. Skipping analysis.'']
                    (snapshot_world snapshot_13))
   \<and> log_file (snd (analyze_changes mostly_nameless alice (snapshot_world snapshot_13)))
       = log_file (snapshot_world snapshot_13)
   \<and> real (count_nameless half_named) / real (length half_named) \<le> 0.5
   \<and> list_all has_id snapshot_13 \<and> list_all has_id half_named
   \<and> json_file (snapshot_world snapshot_13) alice = Holds (JArr (map JObj snapshot_13))
   \<and> log_append (snapshot_world snapshot_13) = None
   \<and> id_of ` set snapshot_13 \<noteq> id_of ` set half_named
   \<and> Print [S (newline @ ''--- ACTIVITY REPORT ---'')]
       \<in> set (console (snd (analyze_changes half_named alice (snapshot_world snapshot_13))))
   \<and> (\<exists>logs. logs \<noteq> []
        \<and> log_file (snd (analyze_changes half_named alice (snapshot_world snapshot_13))) alice
            = appended (log_file (snapshot_world snapshot_13) alice) logs)"
proof -
  have a1: "mostly_nameless \<noteq> []" by (simp add: mostly_nameless_def)
  have a2: "0.5 < real (count_nameless mostly_nameless) / real (length mostly_nameless)"
    by (simp add: sample_counts)
  have I1: "mostly_nameless \<noteq> []
      \<and> 0.5 < real (count_nameless mostly_nameless) / real (length mostly_nameless)"
    using a1 a2 by (rule conjI)
  note A = conjunct1[OF analyze_changes_guard[of mostly_nameless alice "snapshot_world snapshot_13"
        snapshot_13], THEN mp, OF I1]
  have b1: "real (count_nameless half_named) / real (length half_named) \<le> 0.5"
    by (simp add: sample_counts)
  have h: "list_all has_id snapshot_13" "list_all has_id half_named"
    using sample_has_id(3,4) by (simp_all add: list_all_iff)
  have I2: "\<not> (half_named \<noteq> [] \<and> 0.5 < real (count_nameless half_named) / real (length half_named))
       \<and> (\<forall>d \<in> set snapshot_13. has_id d) \<and> (\<forall>d \<in> set half_named. has_id d)
       \<and> json_file (snapshot_world snapshot_13) alice = Holds (JArr (map JObj snapshot_13))
       \<and> log_append (snapshot_world snapshot_13) = None"
    using sample_guards(3) sample_has_id(3) sample_has_id(4)
      snapshot_world_simps(1)[of snapshot_13] snapshot_world_simps(2)[of snapshot_13]
    apply -
    apply (intro conjI)
    apply assumption+
    done
  note B0 = conjunct2[OF analyze_changes_guard[of half_named alice "snapshot_world snapshot_13"
        snapshot_13], THEN mp, OF I2]
  have B: "Print [S (newline @ ''--- ACTIVITY REPORT ---'')]
       \<in> set (console (snd (analyze_changes half_named alice (snapshot_world snapshot_13))))
   \<and> (\<exists>logs. logs \<noteq> []
        \<and> log_file (snd (analyze_changes half_named alice (snapshot_world snapshot_13))) alice
            = appended (log_file (snapshot_world snapshot_13) alice) logs)"
    using B0 by (simp only: sample_differ(2) if_False)
  show ?thesis
    using a1 a2 conjunct1[OF A] conjunct2[OF A] b1 h snapshot_world_simps(1)[of snapshot_13]
      snapshot_world_simps(2)[of snapshot_13] sample_differ(2) conjunct1[OF B] conjunct2[OF B]
    apply -
    apply (intro conjI)
    apply assumption+
    done
qed

text \<open>
  C9. An empty list is not saved: the Snapshot Store returns at once, with the world as it
  was. This holds too after the Change Analyzer, given the empty list and a snapshot of
  known friends, has reported each of them as removed and appended those lines to the
  activity log: the snapshot and the export are still what they were.
\<close>

theorem save_database_empty:
  "save_database [] u w = (Inr (), w)
   \<and> ((\<forall>d \<in> set old. has_id d) \<and> old \<noteq> []
        \<and> json_file w u = Holds (JArr (map JObj old)) \<and> log_append w = None \<longrightarrow>
        (\<exists>lost. set (map fst lost) = id_of ` set old \<and> length lost = card (id_of ` set old)
              \<and> lost \<noteq> []
              \<and> log_file (snd (analyze_changes [] u w)) u
                  = appended (log_file w u) (map (lost_log (now w)) lost))
      \<and> fst (analyze_changes [] u w) = Inr ()
      \<and> save_database [] u (snd (analyze_changes [] u w))
          = (Inr (), snd (analyze_changes [] u w))
      \<and> json_file (snd (analyze_changes [] u w)) u = Holds (JArr (map JObj old))
      \<and> csv_file (snd (analyze_changes [] u w)) = csv_file w)"
proof (intro conjI impI)
  show e: "save_database [] u w = (Inr (), w)" for w
    by (simp add: save_database_def)
  assume a: "(\<forall>d \<in> set old. has_id d) \<and> old \<noteq> []
        \<and> json_file w u = Holds (JArr (map JObj old)) \<and> log_append w = None"
  then have o: "\<forall>d \<in> set old. has_id d" and ne: "old \<noteq> []"
    and f: "json_file w u = Holds (JArr (map JObj old))" and l: "log_append w = None"
    by simp_all
  have c: "\<forall>d \<in> set ([]::dict list). has_id d" by simp
  from analyze_changes_wf[OF o c f sample_guards(4)] obtain lost new where ln:
    "set (map fst lost) = id_of ` set old - id_of ` set []" "distinct (map fst lost)"
    "set (map fst new) = id_of ` set [] - id_of ` set old" "distinct (map fst new)"
    "\<forall>(k, d) \<in> set lost. d \<in> set old \<and> id_of d = k"
    "\<forall>(k, d) \<in> set new. d \<in> set [] \<and> id_of d = k"
    "lost = [] \<and> new = [] \<Longrightarrow>
       analyze_changes [] u w = (Inr (), log_msg ''INFO'' [S ''No changes detected.''] w)"
    "\<not> (lost = [] \<and> new = []) \<Longrightarrow> log_append w = None \<Longrightarrow>
       fst (analyze_changes [] u w) = Inr ()
     \<and> log_file (snd (analyze_changes [] u w))
         = (log_file w)(u := appended (log_file w u)
              (map (lost_log (now w)) lost @ map (new_log (now w)) new))
     \<and> json_file (snd (analyze_changes [] u w)) = json_file w
     \<and> csv_file (snd (analyze_changes [] u w)) = csv_file w
     \<and> Print [S (newline @ ''--- ACTIVITY REPORT ---'')]
           \<in> set (console (snd (analyze_changes [] u w)))"
    by blast
  have new: "new = []" using ln(3) by simp
  have keys: "set (map fst lost) = id_of ` set old" using ln(1) by simp
  have lost: "lost \<noteq> []" using keys ne by auto
  have len: "length lost = card (id_of ` set old)"
    using distinct_card[OF ln(2)] keys by simp
  from lost have "\<not> (lost = [] \<and> new = [])" by simp
  from ln(8)[OF this l] have r:
    "fst (analyze_changes [] u w) = Inr ()"
    "log_file (snd (analyze_changes [] u w))
         = (log_file w)(u := appended (log_file w u)
              (map (lost_log (now w)) lost @ map (new_log (now w)) new))"
    "json_file (snd (analyze_changes [] u w)) = json_file w"
    "csv_file (snd (analyze_changes [] u w)) = csv_file w"
    by simp_all
  have "log_file (snd (analyze_changes [] u w)) u
                  = appended (log_file w u) (map (lost_log (now w)) lost)"
    by (simp add: r(2) new)
  with keys len lost
  show "\<exists>lost. set (map fst lost) = id_of ` set old \<and> length lost = card (id_of ` set old)
              \<and> lost \<noteq> []
              \<and> log_file (snd (analyze_changes [] u w)) u
                  = appended (log_file w u) (map (lost_log (now w)) lost)"
    by (intro exI[of _ lost] conjI)
  show "fst (analyze_changes [] u w) = Inr ()" by (rule r(1))
  show "save_database [] u (snd (analyze_changes [] u w)) = (Inr (), snd (analyze_changes [] u w))"
    by (rule e)
  show "json_file (snd (analyze_changes [] u w)) u = Holds (JArr (map JObj old))"
    by (simp add: r(3) f)
  show "csv_file (snd (analyze_changes [] u w)) = csv_file w" by (rule r(4))
qed

theorem save_database_empty_witness:
  "list_all has_id snapshot_123 \<and> snapshot_123 \<noteq> []
   \<and> json_file (snapshot_world snapshot_123) alice = Holds (JArr (map JObj snapshot_123))
   \<and> log_append (snapshot_world snapshot_123) = None
   \<and> (\<exists>lost. set (map fst lost) = id_of ` set snapshot_123
          \<and> length lost = card (id_of ` set snapshot_123) \<and> lost \<noteq> []
          \<and> log_file (snd (analyze_changes [] alice (snapshot_world snapshot_123))) alice
              = appended (log_file (snapshot_world snapshot_123) alice)
                  (map (lost_log (now (snapshot_world snapshot_123))) lost))
   \<and> save_database [] alice (snd (analyze_changes [] alice (snapshot_world snapshot_123)))
       = (Inr (), snd (analyze_changes [] alice (snapshot_world snapshot_123)))
   \<and> json_file (snd (analyze_changes [] alice (snapshot_world snapshot_123))) alice
       = Holds (JArr (map JObj snapshot_123))"
proof -
  have n: "snapshot_123 \<noteq> []" by (simp add: snapshot_123_def)
  have h: "list_all has_id snapshot_123"
    using sample_has_id(1) by (simp add: list_all_iff)
  have I: "(\<forall>d \<in> set snapshot_123. has_id d) \<and> snapshot_123 \<noteq> []
        \<and> json_file (snapshot_world snapshot_123) alice = Holds (JArr (map JObj snapshot_123))
        \<and> log_append (snapshot_world snapshot_123) = None"
    using sample_has_id(1) n snapshot_world_simps(1)[of snapshot_123]
      snapshot_world_simps(2)[of snapshot_123]
    apply -
    apply (intro conjI)
    apply assumption+
    done
  note T = conjunct2[OF save_database_empty[of alice "snapshot_world snapshot_123" snapshot_123],
      THEN mp, OF I]
  show ?thesis
    using h n snapshot_world_simps(1)[of snapshot_123] snapshot_world_simps(2)[of snapshot_123]
      conjunct1[OF T] conjunct1[OF conjunct2[OF conjunct2[OF T]]]
      conjunct1[OF conjunct2[OF conjunct2[OF conjunct2[OF T]]]]
    apply -
    apply (intro conjI)
    apply assumption+
    done
qed

subsection \<open>The friend-list loop\<close>

lemma send_simps:
  "fst (send r w) = net w (length (sent w))"
  "net (asked r w) = net w" "sent (asked r w) = sent w @ [r]"
  "console (asked r w) = console w" "slept (asked r w) = slept w"
  by (simp_all add: send_def asked_def)

lemma rate_limited_simps:
  "net (rate_limited r w) = net w" "sent (rate_limited r w) = sent w @ [r]"
  "console (rate_limited r w) = console w @ [Log ''WARN'' [S ''Rate limit (429). Retrying...'']]"
  "slept (rate_limited r w) = slept w @ [RATE_LIMIT_DELAY]"
  by (simp_all add: rate_limited_def sleep_def log_msg_def send_def asked_def)

lemma friends_loop_retry:
  assumes "net w (length (sent w)) = Resp 429 body"
  shows "friends_loop uid ck cursor acc w
         = friends_loop uid ck cursor acc (rate_limited (friends_request uid ck cursor) w)"
  using assms
  by (subst friends_loop.simps)
     (simp add: send_def asked_def rate_limited_def friends_request_def)

lemma friends_loop_next:
  assumes "net w (length (sent w)) = Resp 200 (JObj d)" "py_iter (page_items d) = Inr items"
    "truthy (next_cursor d)"
  shows "friends_loop uid ck cursor acc w
         = friends_loop uid ck (next_cursor d) (acc @ items) (asked (friends_request uid ck cursor) w)"
  using assms
  by (subst friends_loop.simps, cases "truthy (dict_get_or d ''PageItems'' (JArr []))")
     (simp_all add: send_def asked_def friends_request_def page_items_def next_cursor_def)

lemma friends_loop_last:
  assumes "net w (length (sent w)) = Resp 200 (JObj d)" "py_iter (page_items d) = Inr items"
    "\<not> truthy (next_cursor d)"
  shows "friends_loop uid ck cursor acc w
         = Some (Inr (acc @ items), asked (friends_request uid ck cursor) w)"
  using assms
  by (subst friends_loop.simps, cases "truthy (dict_get_or d ''PageItems'' (JArr []))")
     (simp_all add: send_def asked_def friends_request_def page_items_def next_cursor_def)

lemma friends_loop_status:
  assumes "net w (length (sent w)) = Resp status body" "status \<noteq> 200" "status \<noteq> 429"
  shows "friends_loop uid ck cursor acc w
         = Some (Inr acc, log_msg ''ERROR'' [S ''Error fetching list: '', N status]
                            (asked (friends_request uid ck cursor) w))"
  using assms
  by (subst friends_loop.simps) (simp add: send_def asked_def friends_request_def)

lemma friends_loop_exception:
  assumes "net w (length (sent w)) = RequestException"
  shows "friends_loop uid ck cursor acc w
         = Some (Inr acc, log_msg ''ERROR'' [S ''Network error while fetching friends.'']
                            (asked (friends_request uid ck cursor) w))"
  using assms
  by (subst friends_loop.simps) (simp add: send_def asked_def friends_request_def)

lemma friends_loop_bad_items:
  assumes "net w (length (sent w)) = Resp 200 (JObj d)" "py_iter (page_items d) = Inl e"
  shows "friends_loop uid ck cursor acc w = Some (Inl e, asked (friends_request uid ck cursor) w)"
  using assms
  by (subst friends_loop.simps, cases "truthy (dict_get_or d ''PageItems'' (JArr []))")
     (simp_all add: send_def asked_def friends_request_def page_items_def next_cursor_def)

lemma friends_loop_bad_body:
  assumes "net w (length (sent w)) = Resp 200 body" "\<forall>d. body \<noteq> JObj d"
  shows "friends_loop uid ck cursor acc w
         = Some (Inl AttributeError, asked (friends_request uid ck cursor) w)"
  using assms
  by (subst friends_loop.simps, cases body)
     (simp_all add: send_def asked_def friends_request_def)

lemma friends_loop_leaves:
  assumes "leaves_loop (net w (length (sent w)))"
  shows "\<exists>r. friends_loop uid ck cursor acc w = Some r"
proof (cases "net w (length (sent w))")
  case RequestException
  then show ?thesis by (simp add: friends_loop_exception)
next
  case (Resp status body)
  show ?thesis
  proof (cases "status = 200")
    case False
    with assms Resp have "status \<noteq> 429" by (cases body) simp_all
    with False Resp show ?thesis by (simp add: friends_loop_status)
  next
    case True
    show ?thesis
    proof (cases "\<exists>d. body = JObj d")
      case False
      with Resp True show ?thesis by (simp add: friends_loop_bad_body)
    next
      case ex: True
      then obtain d where d: "body = JObj d" ..
      show ?thesis
      proof (cases "py_iter (page_items d)")
        case (Inl e)
        with Resp True d show ?thesis by (simp add: friends_loop_bad_items)
      next
        case (Inr items)
        with assms Resp True d have "\<not> truthy (next_cursor d)" by simp
        with Resp True d Inr show ?thesis by (simp add: friends_loop_last)
      qed
    qed
  qed
qed

lemma friends_loop_goes_on:
  assumes "\<not> leaves_loop (net w (length (sent w)))"
  shows "\<exists>cursor' acc' w'. friends_loop uid ck cursor acc w = friends_loop uid ck cursor' acc' w'
           \<and> net w' = net w \<and> length (sent w') = Suc (length (sent w))"
proof (cases "net w (length (sent w))")
  case RequestException
  with assms show ?thesis by simp
next
  case (Resp status body)
  show ?thesis
  proof (cases "status = 429")
    case True
    with Resp have "friends_loop uid ck cursor acc w
         = friends_loop uid ck cursor acc (rate_limited (friends_request uid ck cursor) w)"
      by (simp add: friends_loop_retry)
    then show ?thesis
      by (intro exI conjI) (assumption, simp_all add: rate_limited_simps)
  next
    case False
    with assms Resp obtain d items where d: "body = JObj d" "status = 200"
      "py_iter (page_items d) = Inr items" "truthy (next_cursor d)"
      by (cases body) (auto split: if_splits sum.splits)
    with Resp have "friends_loop uid ck cursor acc w
         = friends_loop uid ck (next_cursor d) (acc @ items) (asked (friends_request uid ck cursor) w)"
      by (simp add: friends_loop_next)
    then show ?thesis
      by (intro exI conjI) (assumption, simp_all add: send_simps)
  qed
qed

lemma friends_loop_returns:
  "leaves_loop (net w (length (sent w) + k)) \<Longrightarrow> \<exists>r. friends_loop uid ck cursor acc w = Some r"
proof (induction k arbitrary: cursor acc w)
  case 0
  then have "leaves_loop (net w (length (sent w)))" by simp
  then show ?case by (rule friends_loop_leaves)
next
  case (Suc k)
  show ?case
  proof (cases "leaves_loop (net w (length (sent w)))")
    case True
    then show ?thesis by (rule friends_loop_leaves)
  next
    case False
    from friends_loop_goes_on[OF False, of uid ck cursor acc] obtain cursor' acc' w' where s:
      "friends_loop uid ck cursor acc w = friends_loop uid ck cursor' acc' w'"
      "net w' = net w" "length (sent w') = Suc (length (sent w))"
      by blast
    from Suc.prems s(2,3) have "leaves_loop (net w' (length (sent w') + k))" by simp
    from Suc.IH[OF this] s(1) show ?thesis by simp
  qed
qed

lemma friends_loop_Some_leaves:
  assumes "friends_loop uid ck cursor acc w = Some r"
  shows "\<exists>k. leaves_loop (net w (length (sent w) + k))"
  using assms
proof (rule friends_loop.raw_induct[rotated 1,
      where P = "\<lambda>uid ck cursor acc w r. \<exists>k. leaves_loop (net w (length (sent w) + k))"])
  fix loop :: "jval \<Rightarrow> string \<Rightarrow> jval \<Rightarrow> jval list \<Rightarrow> world \<Rightarrow> ((error + jval list) \<times> world) option"
  fix uid ck cursor acc w r
  assume IH: "\<And>uid ck cursor acc w r. loop uid ck cursor acc w = Some r \<Longrightarrow>
                \<exists>k. leaves_loop (net w (length (sent w) + k))"
  assume step: "(let (r, w1) = send (FriendsGet uid (get_headers ck)
                            (if truthy cursor then Some cursor else None)) w in
      case r of
        RequestException \<Rightarrow>
          Some (Inr acc,
                log_msg ''ERROR'' [S ''Network error while fetching friends.''] w1)
      | Resp status data \<Rightarrow>
          if status = 200
          then (case py_get_or data ''PageItems'' (JArr []) of
                  Inl e \<Rightarrow> Some (Inl e, w1)
                | Inr first_items \<Rightarrow>
                    (case (if truthy first_items then Inr first_items
                           else py_get_or data ''data'' (JArr [])) of
                       Inl e \<Rightarrow> Some (Inl e, w1)
                     | Inr items \<Rightarrow>
                         (case py_iter items of
                            Inl e \<Rightarrow> Some (Inl e, w1)
                          | Inr new_items \<Rightarrow>
                              (case py_get_or data ''NextCursor'' JNull of
                                 Inl e \<Rightarrow> Some (Inl e, w1)
                               | Inr cursor' \<Rightarrow>
                                   if \<not> truthy cursor'
                                   then Some (Inr (acc @ new_items), w1)
                                   else loop uid ck cursor'
                                          (acc @ new_items) w1))))
          else if status = 429
          then loop uid ck cursor acc
                 (sleep RATE_LIMIT_DELAY
                    (log_msg ''WARN'' [S ''Rate limit (429). Retrying...''] w1))
          else Some (Inr acc,
                     log_msg ''ERROR'' [S ''Error fetching list: '', N status] w1)) = Some r"
  show "\<exists>k. leaves_loop (net w (length (sent w) + k))"
  proof (cases "leaves_loop (net w (length (sent w)))")
    case True
    then have "leaves_loop (net w (length (sent w) + 0))" by simp
    then show ?thesis by (rule exI)
  next
    case False
    show ?thesis
    proof (cases "net w (length (sent w))")
      case RequestException
      with False show ?thesis by simp
    next
      case (Resp status body)
      show ?thesis
      proof (cases "status = 429")
        case True
        with Resp step have "loop uid ck cursor acc
            (rate_limited (friends_request uid ck cursor) w) = Some r"
          by (simp add: send_def asked_def rate_limited_def friends_request_def)
        from IH[OF this] obtain k where
          "leaves_loop (net w (Suc (length (sent w)) + k))"
          by (auto simp add: rate_limited_simps)
        then have "leaves_loop (net w (length (sent w) + Suc k))" by simp
        then show ?thesis by (rule exI)
      next
        case n429: False
        with False Resp obtain d items where d: "body = JObj d" "status = 200"
          "py_iter (page_items d) = Inr items" "truthy (next_cursor d)"
          by (cases body) (auto split: if_splits sum.splits)
        with Resp step have "loop uid ck (next_cursor d) (acc @ items)
            (asked (friends_request uid ck cursor) w) = Some r"
          by (cases "truthy (dict_get_or d ''PageItems'' (JArr []))")
             (simp_all add: send_def asked_def friends_request_def page_items_def next_cursor_def)
        from IH[OF this] obtain k where
          "leaves_loop (net w (Suc (length (sent w)) + k))"
          by (auto simp add: send_simps)
        then have "leaves_loop (net w (length (sent w) + Suc k))" by simp
        then show ?thesis by (rule exI)
      qed
    qed
  qed
qed

lemma fetch_friend_ids_returns_iff:
  "(\<exists>r. fetch_friend_ids uid ck w = Some r) \<longleftrightarrow> (\<exists>k. leaves_loop (net w (length (sent w) + k)))"
proof -
  let ?w = "log_msg ''INFO'' [S ''Fetching friend list...''] w"
  have w: "net ?w = net w" "sent ?w = sent w" by (simp_all add: log_msg_def)
  have "(\<exists>r. fetch_friend_ids uid ck w = Some r) \<longleftrightarrow> (\<exists>r. friends_loop uid ck JNull [] ?w = Some r)"
    by (auto simp add: fetch_friend_ids_def split: option.splits sum.splits prod.splits)
  also have "\<dots> \<longleftrightarrow> (\<exists>k. leaves_loop (net ?w (length (sent ?w) + k)))"
    using friends_loop_returns[of ?w _ uid ck JNull "[]"]
      friends_loop_Some_leaves[of uid ck JNull "[]" ?w] by blast
  finally show ?thesis by (simp only: w)
qed

lemma attempts_all_429:
  "(\<forall>n. \<exists>body. net w n = Resp 429 body) \<Longrightarrow>
   \<exists>w'. attempts as i batch ck fm w = (Inr fm, w')
       \<and> sent w' = sent w @ replicate (length as) (UsersPost (get_headers ck) batch)
       \<and> slept w' = slept w @ map (\<lambda>a. (a + 1) * RATE_LIMIT_DELAY) as
       \<and> net w' = net w"
proof (induction as arbitrary: w)
  case Nil
  then show ?case by simp
next
  case (Cons a as)
  from Cons.prems obtain body where b: "net w (length (sent w)) = Resp 429 body" by blast
  let ?w1 = "sleep ((a + 1) * RATE_LIMIT_DELAY)
               (log_msg ''WARN'' [S ''Rate limit on batch '', N (int i), S ''. Retrying in '',
                                  N (int ((a + 1) * RATE_LIMIT_DELAY)), S ''s...'']
                  (asked (UsersPost (get_headers ck) batch) w))"
  have step: "attempts (a # as) i batch ck fm w = attempts as i batch ck fm ?w1"
    using b by (simp add: send_def asked_def Let_def)
  have w1: "net ?w1 = net w" "sent ?w1 = sent w @ [UsersPost (get_headers ck) batch]"
    "slept ?w1 = slept w @ [(a + 1) * RATE_LIMIT_DELAY]"
    by (simp_all add: sleep_def log_msg_def send_def asked_def)
  from Cons.prems w1(1) have "\<forall>n. \<exists>body. net ?w1 n = Resp 429 body" by simp
  from Cons.IH[OF this] obtain w' where w':
    "attempts as i batch ck fm ?w1 = (Inr fm, w')"
    "sent w' = sent ?w1 @ replicate (length as) (UsersPost (get_headers ck) batch)"
    "slept w' = slept ?w1 @ map (\<lambda>a. (a + 1) * RATE_LIMIT_DELAY) as"
    "net w' = net ?w1"
    by blast
  show ?case
    apply (rule exI[of _ w'])
    using step w' w1 by (simp add: replicate_app_Cons_same)
qed

lemma page_simps:
  "py_iter (page_items [(''PageItems'', JArr xs), (''NextCursor'', c)]) = Inr xs"
  "next_cursor [(''PageItems'', JArr xs), (''NextCursor'', c)] = c"
  by (simp_all add: page_items_def next_cursor_def dict_get_or_def)

text \<open>
  C10. The friend-list fetch returns whenever the trace from the current request on holds
  a response that leaves the loop (a page without next cursor, a status other than 200 and
  429, a connection error); on a trace of 429 responses only it never returns, whereas the
  detail enricher's attempt loop returns after at most \<open>MAX_RETRIES\<close> requests.
\<close>

theorem fetch_friend_ids_termination:
  "((\<exists>k. leaves_loop (net w (length (sent w) + k))) \<longrightarrow>
      (\<exists>r. fetch_friend_ids uid ck w = Some r))
   \<and> ((\<forall>n. \<exists>body. net w n = Resp 429 body) \<longrightarrow>
        fetch_friend_ids uid ck w = None
      \<and> (\<exists>w'. attempts [0..<MAX_RETRIES] i batch ck fm w = (Inr fm, w')
               \<and> length (sent w') = length (sent w) + MAX_RETRIES))"
proof (intro conjI impI)
  assume "\<exists>k. leaves_loop (net w (length (sent w) + k))"
  then show "\<exists>r. fetch_friend_ids uid ck w = Some r"
    by (simp only: fetch_friend_ids_returns_iff)
next
  assume a: "\<forall>n. \<exists>body. net w n = Resp 429 body"
  have "\<not> leaves_loop (net w (length (sent w) + k))" for k
  proof -
    from a obtain body where "net w (length (sent w) + k) = Resp 429 body" by blast
    then show ?thesis by (cases body) simp_all
  qed
  then have "\<not> (\<exists>r. fetch_friend_ids uid ck w = Some r)"
    by (simp only: fetch_friend_ids_returns_iff) simp
  then show "fetch_friend_ids uid ck w = None"
    by (cases "fetch_friend_ids uid ck w") blast+
  from attempts_all_429[OF a, of "[0..<MAX_RETRIES]" i batch ck fm] obtain w' where
    "attempts [0..<MAX_RETRIES] i batch ck fm w = (Inr fm, w')"
    "sent w' = sent w @ replicate (length [0..<MAX_RETRIES]) (UsersPost (get_headers ck) batch)"
    by blast
  then show "\<exists>w'. attempts [0..<MAX_RETRIES] i batch ck fm w = (Inr fm, w')
               \<and> length (sent w') = length (sent w) + MAX_RETRIES"
    by simp
qed

theorem fetch_friend_ids_termination_witness:
  "leaves_loop (net flaky_world (length (sent flaky_world) + 2))
   \<and> (\<exists>r. fetch_friend_ids (JInt 7) ''COOKIE'' flaky_world = Some r)
   \<and> (\<forall>n. \<exists>body. net busy_world n = Resp 429 body)
   \<and> fetch_friend_ids (JInt 7) ''COOKIE'' busy_world = None
   \<and> (\<exists>w'. attempts [0..<MAX_RETRIES] 0 [JInt 1] ''COOKIE'' [] busy_world = (Inr [], w')
            \<and> length (sent w') = length (sent busy_world) + MAX_RETRIES)"
proof -
  have l: "leaves_loop (net flaky_world (length (sent flaky_world) + 2))"
    by (simp add: flaky_world_def quiet_world_def page_def page_simps)
  then have E: "\<exists>k. leaves_loop (net flaky_world (length (sent flaky_world) + k))"
    by (rule exI)
  note T1 = conjunct1[OF fetch_friend_ids_termination[where w = flaky_world and uid = "JInt 7"
        and ck = "''COOKIE''" and i = 0 and batch = "[JInt 1]" and fm = "[]"], THEN mp, OF E]
  have b: "\<forall>n. \<exists>body. net busy_world n = Resp 429 body"
    by (simp add: busy_world_def)
  note T2 = conjunct2[OF fetch_friend_ids_termination[where w = busy_world and uid = "JInt 7"
        and ck = "''COOKIE''" and i = 0 and batch = "[JInt 1]" and fm = "[]"], THEN mp, OF b]
  show ?thesis
    using l T1 b conjunct1[OF T2] conjunct2[OF T2]
    apply -
    apply (intro conjI)
    apply assumption+
    done
qed

lemma friends_loop_next_page:
  assumes "net w (length (sent w)) = Resp 200 (page items next)" "truthy next"
  shows "friends_loop uid ck cursor acc w
         = friends_loop uid ck next (acc @ items) (asked (friends_request uid ck cursor) w)"
  using friends_loop_next[of w "[(''PageItems'', JArr items), (''NextCursor'', next)]" items
      uid ck cursor acc] assms
  by (simp add: page_def page_simps)

lemma friends_loop_last_page:
  assumes "net w (length (sent w)) = Resp 200 (page items next)" "\<not> truthy next"
  shows "friends_loop uid ck cursor acc w
         = Some (Inr (acc @ items), asked (friends_request uid ck cursor) w)"
  using friends_loop_last[of w "[(''PageItems'', JArr items), (''NextCursor'', next)]" items
      uid ck cursor acc] assms
  by (simp add: page_def page_simps)

lemma friends_loop_three_pages:
  assumes "truthy a" "truthy b"
    "net w (length (sent w)) = Resp 200 (page xs a)"
    "net w (length (sent w) + 1) = Resp 200 (page ys b)"
    "net w (length (sent w) + 2) = Resp 200 (page zs JNull)"
  shows "friends_loop uid ck cursor acc w
         = Some (Inr (acc @ xs @ ys @ zs),
                 asked (friends_request uid ck b)
                   (asked (friends_request uid ck a) (asked (friends_request uid ck cursor) w)))"
proof -
  let ?w1 = "asked (friends_request uid ck cursor) w"
  let ?w2 = "asked (friends_request uid ck a) ?w1"
  have 1: "friends_loop uid ck cursor acc w = friends_loop uid ck a (acc @ xs) ?w1"
    using assms(1,3) by (rule friends_loop_next_page[rotated])
  have n1: "net ?w1 (length (sent ?w1)) = Resp 200 (page ys b)"
    using assms(4) by (simp add: send_simps)
  have 2: "friends_loop uid ck a (acc @ xs) ?w1 = friends_loop uid ck b ((acc @ xs) @ ys) ?w2"
    using n1 assms(2) by (rule friends_loop_next_page)
  have n2: "net ?w2 (length (sent ?w2)) = Resp 200 (page zs JNull)"
    using assms(5) by (simp add: send_simps)
  have 3: "friends_loop uid ck b ((acc @ xs) @ ys) ?w2
         = Some (Inr (((acc @ xs) @ ys) @ zs), asked (friends_request uid ck b) ?w2)"
    using n2 by (rule friends_loop_last_page) simp
  from 1 2 3 show ?thesis by simp
qed

lemma friends_loop_retry_then_last:
  assumes "net w (length (sent w)) = Resp 429 body"
    "net w (length (sent w) + 1) = Resp 200 (page xs JNull)"
  shows "friends_loop uid ck cursor acc w
         = Some (Inr (acc @ xs),
                 asked (friends_request uid ck cursor)
                   (rate_limited (friends_request uid ck cursor) w))"
proof -
  let ?w1 = "rate_limited (friends_request uid ck cursor) w"
  have 1: "friends_loop uid ck cursor acc w = friends_loop uid ck cursor acc ?w1"
    using assms(1) by (rule friends_loop_retry)
  have n1: "net ?w1 (length (sent ?w1)) = Resp 200 (page xs JNull)"
    using assms(2) by (simp add: rate_limited_simps)
  have 2: "friends_loop uid ck cursor acc ?w1
         = Some (Inr (acc @ xs), asked (friends_request uid ck cursor) ?w1)"
    using n1 by (rule friends_loop_last_page) simp
  from 1 2 show ?thesis by simp
qed

text \<open>
  C7. After a 429 the loop goes round with the same cursor, so it sends the same request
  again; after a page with a truthy next cursor it goes on from that cursor with the items
  appended; a page without one ends it. Three pages with the cursors A, B and none give
  exactly three requests (no cursor, A, B) and all items in page order.
\<close>

theorem fetch_friend_ids_pagination:
  "(net w (length (sent w)) = Resp 429 body \<longrightarrow>
      friends_loop uid ck cursor acc w
        = friends_loop uid ck cursor acc (rate_limited (friends_request uid ck cursor) w))
   \<and> (net w (length (sent w)) = Resp 429 body
       \<and> net w (length (sent w) + 1) = Resp 200 (page xs JNull) \<longrightarrow>
      (\<exists>w'. friends_loop uid ck cursor acc w = Some (Inr (acc @ xs), w')
          \<and> sent w' = sent w @ [friends_request uid ck cursor, friends_request uid ck cursor]
          \<and> slept w' = slept w @ [RATE_LIMIT_DELAY]))
   \<and> (net w (length (sent w)) = Resp 200 (JObj d) \<and> py_iter (page_items d) = Inr items
       \<and> truthy (next_cursor d) \<longrightarrow>
      friends_loop uid ck cursor acc w
        = friends_loop uid ck (next_cursor d) (acc @ items)
            (asked (friends_request uid ck cursor) w))
   \<and> (net w (length (sent w)) = Resp 200 (JObj d) \<and> py_iter (page_items d) = Inr items
       \<and> \<not> truthy (next_cursor d) \<longrightarrow>
      friends_loop uid ck cursor acc w
        = Some (Inr (acc @ items), asked (friends_request uid ck cursor) w))
   \<and> (truthy a \<and> truthy b
       \<and> net w (length (sent w)) = Resp 200 (page xs a)
       \<and> net w (length (sent w) + 1) = Resp 200 (page ys b)
       \<and> net w (length (sent w) + 2) = Resp 200 (page zs JNull) \<longrightarrow>
      (\<exists>w'. fetch_friend_ids uid ck w = Some (Inr (Some (xs @ ys @ zs)), w')
          \<and> sent w' = sent w @ [friends_request uid ck JNull, friends_request uid ck a,
                                 friends_request uid ck b]))"
proof (intro conjI impI)
  assume "net w (length (sent w)) = Resp 429 body"
  then show "friends_loop uid ck cursor acc w
        = friends_loop uid ck cursor acc (rate_limited (friends_request uid ck cursor) w)"
    by (rule friends_loop_retry)
next
  assume a: "net w (length (sent w)) = Resp 429 body
       \<and> net w (length (sent w) + 1) = Resp 200 (page xs JNull)"
  then have "friends_loop uid ck cursor acc w
         = Some (Inr (acc @ xs),
                 asked (friends_request uid ck cursor)
                   (rate_limited (friends_request uid ck cursor) w))"
    using friends_loop_retry_then_last[of w body xs uid ck cursor acc] by blast
  then show "\<exists>w'. friends_loop uid ck cursor acc w = Some (Inr (acc @ xs), w')
          \<and> sent w' = sent w @ [friends_request uid ck cursor, friends_request uid ck cursor]
          \<and> slept w' = slept w @ [RATE_LIMIT_DELAY]"
    by (intro exI conjI) (assumption, simp_all add: send_simps rate_limited_simps)
next
  assume "net w (length (sent w)) = Resp 200 (JObj d) \<and> py_iter (page_items d) = Inr items
       \<and> truthy (next_cursor d)"
  then have "net w (length (sent w)) = Resp 200 (JObj d)" "py_iter (page_items d) = Inr items"
    "truthy (next_cursor d)"
    by blast+
  then show "friends_loop uid ck cursor acc w
        = friends_loop uid ck (next_cursor d) (acc @ items)
            (asked (friends_request uid ck cursor) w)"
    by (rule friends_loop_next)
next
  assume "net w (length (sent w)) = Resp 200 (JObj d) \<and> py_iter (page_items d) = Inr items
       \<and> \<not> truthy (next_cursor d)"
  then have "net w (length (sent w)) = Resp 200 (JObj d)" "py_iter (page_items d) = Inr items"
    "\<not> truthy (next_cursor d)"
    by blast+
  then show "friends_loop uid ck cursor acc w
        = Some (Inr (acc @ items), asked (friends_request uid ck cursor) w)"
    by (rule friends_loop_last)
next
  assume a: "truthy a \<and> truthy b
       \<and> net w (length (sent w)) = Resp 200 (page xs a)
       \<and> net w (length (sent w) + 1) = Resp 200 (page ys b)
       \<and> net w (length (sent w) + 2) = Resp 200 (page zs JNull)"
  let ?w0 = "log_msg ''INFO'' [S ''Fetching friend list...''] w"
  let ?w3 = "asked (friends_request uid ck b)
               (asked (friends_request uid ck a) (asked (friends_request uid ck JNull) ?w0))"
  have w0: "net ?w0 = net w" "sent ?w0 = sent w" by (simp_all add: log_msg_def)
  have "friends_loop uid ck JNull [] ?w0 = Some (Inr ([] @ xs @ ys @ zs), ?w3)"
    using friends_loop_three_pages[of a b ?w0 xs ys zs uid ck JNull "[]"] a
    by (simp only: w0)
  then have "fetch_friend_ids uid ck w
      = Some (Inr (Some (xs @ ys @ zs)),
              log_msg ''INFO'' [S ''Found '', N (int (length (xs @ ys @ zs))), S '' connections.''] ?w3)"
    by (simp add: fetch_friend_ids_def)
  then show "\<exists>w'. fetch_friend_ids uid ck w = Some (Inr (Some (xs @ ys @ zs)), w')
          \<and> sent w' = sent w @ [friends_request uid ck JNull, friends_request uid ck a,
                                 friends_request uid ck b]"
    by (intro exI conjI) (assumption, simp add: log_msg_def send_simps)
qed

theorem fetch_friend_ids_pagination_witness:
  "net retry_world (length (sent retry_world)) = Resp 429 JNull
   \<and> net retry_world (length (sent retry_world) + 1) = Resp 200 (page [JObj (entry 1)] JNull)
   \<and> friends_loop (JInt 7) ''COOKIE'' JNull [] retry_world
       = friends_loop (JInt 7) ''COOKIE'' JNull []
           (rate_limited (friends_request (JInt 7) ''COOKIE'' JNull) retry_world)
   \<and> (\<exists>w'. friends_loop (JInt 7) ''COOKIE'' JNull [] retry_world
             = Some (Inr ([] @ [JObj (entry 1)]), w')
          \<and> sent w' = sent retry_world @ [friends_request (JInt 7) ''COOKIE'' JNull,
                                            friends_request (JInt 7) ''COOKIE'' JNull]
          \<and> slept w' = slept retry_world @ [RATE_LIMIT_DELAY])
   \<and> net three_pages_world (length (sent three_pages_world))
       = Resp 200 (JObj [(''PageItems'', JArr [JObj (entry 1)]), (''NextCursor'', JStr ''A'')])
   \<and> truthy (next_cursor [(''PageItems'', JArr [JObj (entry 1)]), (''NextCursor'', JStr ''A'')])
   \<and> friends_loop (JInt 7) ''COOKIE'' JNull [] three_pages_world
       = friends_loop (JInt 7) ''COOKIE''
           (next_cursor [(''PageItems'', JArr [JObj (entry 1)]), (''NextCursor'', JStr ''A'')])
           ([] @ [JObj (entry 1)])
           (asked (friends_request (JInt 7) ''COOKIE'' JNull) three_pages_world)
   \<and> net last_page_world (length (sent last_page_world))
       = Resp 200 (JObj [(''PageItems'', JArr [JObj (entry 3)]), (''NextCursor'', JNull)])
   \<and> friends_loop (JInt 7) ''COOKIE'' JNull [] last_page_world
       = Some (Inr ([] @ [JObj (entry 3)]),
               asked (friends_request (JInt 7) ''COOKIE'' JNull) last_page_world)
   \<and> truthy (JStr ''A'') \<and> truthy (JStr ''B'')
   \<and> net three_pages_world (length (sent three_pages_world) + 1)
       = Resp 200 (page [JObj (entry 2)] (JStr ''B''))
   \<and> net three_pages_world (length (sent three_pages_world) + 2)
       = Resp 200 (page [JObj (entry 3)] JNull)
   \<and> (\<exists>w'. fetch_friend_ids (JInt 7) ''COOKIE'' three_pages_world
             = Some (Inr (Some ([JObj (entry 1)] @ [JObj (entry 2)] @ [JObj (entry 3)])), w')
          \<and> sent w' = sent three_pages_world
                @ [friends_request (JInt 7) ''COOKIE'' JNull,
                   friends_request (JInt 7) ''COOKIE'' (JStr ''A''),
                   friends_request (JInt 7) ''COOKIE'' (JStr ''B'')])"
proof -
  note T = fetch_friend_ids_pagination[where uid = "JInt 7" and ck = "''COOKIE''"
      and cursor = JNull and acc = "[]"]
  have r0: "net retry_world (length (sent retry_world)) = Resp 429 JNull"
    and r1: "net retry_world (length (sent retry_world) + 1) = Resp 200 (page [JObj (entry 1)] JNull)"
    by (simp_all add: retry_world_def quiet_world_def)
  note C1 = T[THEN conjunct1, THEN mp, OF r0]
  have H2: "net retry_world (length (sent retry_world)) = Resp 429 JNull
       \<and> net retry_world (length (sent retry_world) + 1) = Resp 200 (page [JObj (entry 1)] JNull)"
    using r0 r1 by (rule conjI)
  note C2 = T[THEN conjunct2, THEN conjunct1, THEN mp, OF H2]
  have p0: "net three_pages_world (length (sent three_pages_world))
       = Resp 200 (JObj [(''PageItems'', JArr [JObj (entry 1)]), (''NextCursor'', JStr ''A'')])"
    and p0': "net three_pages_world (length (sent three_pages_world))
       = Resp 200 (page [JObj (entry 1)] (JStr ''A''))"
    and p1: "net three_pages_world (length (sent three_pages_world) + 1)
       = Resp 200 (page [JObj (entry 2)] (JStr ''B''))"
    and p2: "net three_pages_world (length (sent three_pages_world) + 2)
       = Resp 200 (page [JObj (entry 3)] JNull)"
    by (simp_all add: three_pages_world_def quiet_world_def page_def)
  have it: "py_iter (page_items [(''PageItems'', JArr [JObj (entry 1)]), (''NextCursor'', JStr ''A'')])
        = Inr [JObj (entry 1)]"
    and tr: "truthy (next_cursor [(''PageItems'', JArr [JObj (entry 1)]), (''NextCursor'', JStr ''A'')])"
    by (simp_all add: page_simps)
  have H3: "net three_pages_world (length (sent three_pages_world))
       = Resp 200 (JObj [(''PageItems'', JArr [JObj (entry 1)]), (''NextCursor'', JStr ''A'')])
     \<and> py_iter (page_items [(''PageItems'', JArr [JObj (entry 1)]), (''NextCursor'', JStr ''A'')])
        = Inr [JObj (entry 1)]
     \<and> truthy (next_cursor [(''PageItems'', JArr [JObj (entry 1)]), (''NextCursor'', JStr ''A'')])"
    using p0 it tr by (intro conjI)
  note C3 = T[THEN conjunct2, THEN conjunct2, THEN conjunct1, THEN mp, OF H3]
  have l0: "net last_page_world (length (sent last_page_world))
       = Resp 200 (JObj [(''PageItems'', JArr [JObj (entry 3)]), (''NextCursor'', JNull)])"
    by (simp add: last_page_world_def quiet_world_def page_def)
  have H4: "net last_page_world (length (sent last_page_world))
       = Resp 200 (JObj [(''PageItems'', JArr [JObj (entry 3)]), (''NextCursor'', JNull)])
     \<and> py_iter (page_items [(''PageItems'', JArr [JObj (entry 3)]), (''NextCursor'', JNull)])
        = Inr [JObj (entry 3)]
     \<and> \<not> truthy (next_cursor [(''PageItems'', JArr [JObj (entry 3)]), (''NextCursor'', JNull)])"
    using l0 by (simp add: page_simps)
  note C4 = T[THEN conjunct2, THEN conjunct2, THEN conjunct2, THEN conjunct1, THEN mp, OF H4]
  have ta: "truthy (JStr ''A'')" and tb: "truthy (JStr ''B'')" by simp_all
  have H5: "truthy (JStr ''A'') \<and> truthy (JStr ''B'')
       \<and> net three_pages_world (length (sent three_pages_world))
           = Resp 200 (page [JObj (entry 1)] (JStr ''A''))
       \<and> net three_pages_world (length (sent three_pages_world) + 1)
           = Resp 200 (page [JObj (entry 2)] (JStr ''B''))
       \<and> net three_pages_world (length (sent three_pages_world) + 2)
           = Resp 200 (page [JObj (entry 3)] JNull)"
    using ta tb p0' p1 p2 by (intro conjI)
  note C5 = T[THEN conjunct2, THEN conjunct2, THEN conjunct2, THEN conjunct2, THEN mp, OF H5]
  show ?thesis
    using r0 r1 C1 C2 p0 tr C3 l0 C4 ta tb p1 p2 C5
    apply -
    apply (intro conjI)
    apply assumption+
    done
qed

end
